theory Spec2Isabelle
  imports Complex_Main "HOL-Library.Word"
begin

section \<open>The OGRFeature class of ogr/ogrfeature.cpp\<close>

text \<open>
  A shallow embedding of the feature class: the feature definition it is bound to, its
  field array, its geometry and its feature id, with the objects kept in an explicit
  store so that the pointer comparisons of \<open>Equal\<close> and the copies of \<open>Clone\<close> mean what
  they mean in the C++. Every way the C++ can leave defined behaviour (a null or dangling
  pointer that is dereferenced, a failed \<open>CPLAssert\<close>, a conversion whose result the
  target type cannot hold, a read of a union member that was not the one written) is a
  value of the type \<open>error\<close>, and every operation that can reach one returns a sum.
\<close>

subsection \<open>Errors and sequencing\<close>

datatype error =
    NullDereference       \<comment> \<open>a member is reached through a null pointer\<close>
  | InvalidPointer        \<comment> \<open>a pointer to an object that is not (or no longer) allocated\<close>
  | AssertionFailed       \<comment> \<open>\<open>CPLAssert( poFDefn != NULL )\<close> fails\<close>
  | OutOfBounds           \<comment> \<open>\<open>pauFields[iField]\<close> outside the allocated array\<close>
  | UndefinedConversion   \<comment> \<open>a numeric result that the type \<open>int\<close> cannot represent\<close>
  | InactiveMember        \<comment> \<open>a union member is read that is not the one last written\<close>

definition and_then :: "error + 'a \<Rightarrow> ('a \<Rightarrow> error + 'b) \<Rightarrow> error + 'b" where
  "and_then m k = (case m of Inl e \<Rightarrow> Inl e | Inr x \<Rightarrow> k x)"

subsection \<open>The C library functions the class calls\<close>

text \<open>
  \<open>int\<close> is a 32-bit two's complement integer. A \<open>double\<close> is the real number it
  denotes, an infinity or a NaN; not every real is a double, so where the library
  produces a double from a decimal string it rounds, and the rounding is a parameter
  (\<open>round_double\<close> below).
\<close>

datatype double = Finite real | PosInf | NegInf | NaN

definition isspace :: "char \<Rightarrow> bool" where
  "isspace c = (c \<in> set [CHR '' '', CHR 0x09, CHR 0x0A, CHR 0x0B, CHR 0x0C, CHR 0x0D])"

definition isdigit :: "char \<Rightarrow> bool" where
  "isdigit c = (c \<in> set ''0123456789'')"

definition digit_value :: "char \<Rightarrow> nat" where
  "digit_value c = (of_char c :: nat) - 48"

definition digits_value :: "string \<Rightarrow> nat" where
  "digits_value ds = foldl (\<lambda>a c. 10 * a + digit_value c) 0 ds"

definition is_negative :: "string \<Rightarrow> bool" where
  "is_negative s = (case s of [] \<Rightarrow> False | c # _ \<Rightarrow> c = CHR ''-'')"

definition skip_sign :: "string \<Rightarrow> string" where
  "skip_sign s = (case s of [] \<Rightarrow> [] | c # cs \<Rightarrow> if c = CHR ''-'' \<or> c = CHR ''+'' then cs else s)"

definition representable_int :: "int \<Rightarrow> bool" where
  "representable_int v = (- (2 ^ 31) \<le> v \<and> v < 2 ^ 31)"

definition to_int :: "int \<Rightarrow> error + 32 word" where
  "to_int v = (if representable_int v then Inr (word_of_int v) else Inl UndefinedConversion)"

text \<open>
  \<open>atoi\<close>: white space is skipped, an optional sign is read, then the longest run of
  decimal digits; no digits give 0. A value outside \<open>int\<close> is undefined behaviour.
\<close>

definition leading_integer :: "string \<Rightarrow> int" where
  "leading_integer s =
     (let t = dropWhile isspace s;
          v = int (digits_value (takeWhile isdigit (skip_sign t)))
      in if is_negative t then - v else v)"

definition atoi :: "string \<Rightarrow> error + 32 word" where
  "atoi s = to_int (leading_integer s)"

text \<open>\<open>sprintf( buf, "%d", n )\<close>: the decimal digits of \<open>n\<close>, after a minus sign when negative.\<close>

fun decimal :: "nat \<Rightarrow> string" where
  "decimal n = (if n < 10 then [''0123456789'' ! n]
                else decimal (n div 10) @ [''0123456789'' ! (n mod 10)])"

definition format_d :: "32 word \<Rightarrow> string" where
  "format_d n = (if sint n < 0 then CHR ''-'' # decimal (nat (- sint n)) else decimal (nat (sint n)))"

text \<open>
  The conversions between \<open>int\<close> and \<open>double\<close>. Every \<open>int\<close> is a double. A double
  converts to \<open>int\<close> by discarding its fractional part; when the integral part is not an
  \<open>int\<close> (or the double is not finite) the behaviour is undefined.
\<close>

definition int_to_double :: "32 word \<Rightarrow> double" where
  "int_to_double n = Finite (real_of_int (sint n))"

definition trunc_toward_zero :: "real \<Rightarrow> int" where
  "trunc_toward_zero r = (if 0 \<le> r then \<lfloor>r\<rfloor> else \<lceil>r\<rceil>)"

definition double_to_int :: "double \<Rightarrow> error + 32 word" where
  "double_to_int d = (case d of Finite r \<Rightarrow> to_int (trunc_toward_zero r) | _ \<Rightarrow> Inl UndefinedConversion)"

text \<open>
  \<open>atof\<close> is \<open>strtod\<close>: white space is skipped, an optional sign is read, then the
  longest subject sequence: \<open>INF\<close> or \<open>NAN\<close> in any case, a hexadecimal significand
  after \<open>0x\<close> with an optional binary exponent, or a decimal significand with an
  optional decimal exponent. No subject sequence gives zero. The value read is rounded
  to a double by \<open>rnd\<close>.
\<close>

fun matches_ci :: "(char \<times> char) list \<Rightarrow> string \<Rightarrow> bool" where
  "matches_ci [] s = True"
| "matches_ci (p # ps) [] = False"
| "matches_ci (p # ps) (c # cs) = ((c = fst p \<or> c = snd p) \<and> matches_ci ps cs)"

definition isxdigit :: "char \<Rightarrow> bool" where
  "isxdigit c = (c \<in> set ''0123456789abcdefABCDEF'')"

definition xdigit_value :: "char \<Rightarrow> nat" where
  "xdigit_value c =
     (if isdigit c then (of_char c :: nat) - 48
      else if c \<in> set ''abcdef'' then (of_char c :: nat) - 87
      else (of_char c :: nat) - 55)"

definition xdigits_value :: "string \<Rightarrow> nat" where
  "xdigits_value ds = foldl (\<lambda>a c. 16 * a + xdigit_value c) 0 ds"

definition significand :: "(char \<Rightarrow> bool) \<Rightarrow> string \<Rightarrow> string \<times> string \<times> string" where
  "significand dig s =
     (let ip = takeWhile dig s; r = dropWhile dig s
      in case r of
           [] \<Rightarrow> (ip, [], [])
         | c # t \<Rightarrow> if c = CHR ''.'' then (ip, takeWhile dig t, dropWhile dig t)
                    else (ip, [], r))"

definition exponent_part :: "char \<Rightarrow> char \<Rightarrow> string \<Rightarrow> int" where
  "exponent_part lo up r =
     (case r of
        [] \<Rightarrow> 0
      | c # t \<Rightarrow>
          if c = lo \<or> c = up
          then (let ds = takeWhile isdigit (skip_sign t)
                in if ds = [] then 0
                   else if is_negative t then - int (digits_value ds)
                   else int (digits_value ds))
          else 0)"

definition scaled :: "real \<Rightarrow> int \<Rightarrow> real \<Rightarrow> real" where
  "scaled b e m = (if 0 \<le> e then m * b ^ nat e else m / b ^ nat (- e))"

datatype subject = NoConversion | Infinity | NotANumber | Value real

definition decimal_subject :: "string \<Rightarrow> subject" where
  "decimal_subject u =
     (case significand isdigit u of
        (ip, fp, r) \<Rightarrow>
          if ip = [] \<and> fp = [] then NoConversion
          else Value (scaled 10 (exponent_part (CHR ''e'') (CHR ''E'') r)
                        (real (digits_value (ip @ fp)) / 10 ^ length fp)))"

definition hex_subject :: "string \<Rightarrow> subject" where
  "hex_subject u =
     (case significand isxdigit u of
        (ip, fp, r) \<Rightarrow>
          if ip = [] \<and> fp = [] then NoConversion
          else Value (scaled 2 (exponent_part (CHR ''p'') (CHR ''P'') r)
                        (real (xdigits_value (ip @ fp)) / 16 ^ length fp)))"

definition subject_sequence :: "string \<Rightarrow> subject" where
  "subject_sequence u =
     (if matches_ci [(CHR ''i'', CHR ''I''), (CHR ''n'', CHR ''N''), (CHR ''f'', CHR ''F'')] u
      then Infinity
      else if matches_ci [(CHR ''n'', CHR ''N''), (CHR ''a'', CHR ''A''), (CHR ''n'', CHR ''N'')] u
      then NotANumber
      else if matches_ci [(CHR ''0'', CHR ''0''), (CHR ''x'', CHR ''X'')] u
      then (case hex_subject (drop 2 u) of
              NoConversion \<Rightarrow> decimal_subject u
            | v \<Rightarrow> v)
      else decimal_subject u)"

definition atof :: "(real \<Rightarrow> double) \<Rightarrow> string \<Rightarrow> double" where
  "atof rnd s =
     (let t = dropWhile isspace s
      in case subject_sequence (skip_sign t) of
           NoConversion \<Rightarrow> Finite 0
         | Infinity \<Rightarrow> if is_negative t then NegInf else PosInf
         | NotANumber \<Rightarrow> NaN
         | Value r \<Rightarrow> rnd (if is_negative t then - r else r))"

subsection \<open>What the class takes from the rest of the library\<close>

text \<open>
  The geometry class, the string duplication of the port library and the \<open>%g\<close> format
  are outside the file. The model takes them as parameters, with \<open>'g\<close> the type of
  geometry values:
  \<^item> \<open>round_double\<close>: the rounding of a real to a double, as \<open>atof\<close> does it;
  \<^item> \<open>format_g\<close>: what \<open>sprintf( buf, "%g", d )\<close> writes;
  \<^item> \<open>CPLStrdup_NULL\<close>: what \<open>CPLStrdup\<close> does when it is handed a null pointer;
  \<^item> \<open>geometry_clone\<close>: the value of the object that \<open>OGRGeometry::clone()\<close> allocates;
  \<^item> \<open>geometry_Equal\<close>: the result of \<open>OGRGeometry::Equal()\<close> on this geometry and the
    other one, \<open>None\<close> when the pointer it is handed is null.
\<close>

record 'g outside =
  round_double :: "real \<Rightarrow> double"
  format_g :: "double \<Rightarrow> string"
  CPLStrdup_NULL :: "error + string option"
  geometry_clone :: "'g \<Rightarrow> 'g"
  geometry_Equal :: "'g \<Rightarrow> 'g option \<Rightarrow> bool"

text \<open>
  Modelled from the spec: \<open>CPLStrdup\<close> is a function of the port library, outside the
  file. The spec has every string slot own an independent copy of the string assigned
  to it, so the result for a string is that string again (strings are values here, and
  a \<open>char *\<close> is \<open>None\<close> when null). What the function does with a null pointer the
  spec does not say: that is the parameter \<open>CPLStrdup_NULL\<close>.
\<close>

definition CPLStrdup :: "'g outside \<Rightarrow> string option \<Rightarrow> error + string option" where
  "CPLStrdup E s = (case s of None \<Rightarrow> CPLStrdup_NULL E | Some str \<Rightarrow> Inr (Some str))"

subsection \<open>The feature definition\<close>

text \<open>
  Modelled from the spec: the enumeration \<open>OGRFieldType\<close> is declared in a header
  outside the file. The source names \<open>OFTInteger\<close>, \<open>OFTReal\<close> and \<open>OFTString\<close>; the spec
  has further kinds reserved (list types, wide strings), which every accessor treats
  alike: \<open>OFTOther k\<close> is any of them.
\<close>

datatype OGRFieldType = OFTInteger | OFTReal | OFTString | OFTOther nat

text \<open>
  Modelled from the spec: the class \<open>OGRFieldDefn\<close> is declared outside the file; the
  spec gives a field descriptor a name and a kind.
\<close>

record OGRFieldDefn =
  pszName :: string
  eType :: OGRFieldType

text \<open>
  Modelled from the spec: the class \<open>OGRFeatureDefn\<close> (the Schema) is declared and
  implemented outside the file; the spec gives it a name, an ordered sequence of field
  descriptors and a reference count.
\<close>

record OGRFeatureDefn =
  nRefCount :: int
  pszFeatureClassName :: string
  papoFieldDefn :: "OGRFieldDefn list"

text \<open>
  Modelled from the spec: \<open>OGRFeatureDefn::GetFieldCount()\<close>, outside the file, is the
  number of field descriptors.
\<close>

definition GetFieldCount :: "OGRFeatureDefn \<Rightarrow> int" where
  "GetFieldCount d = int (length (papoFieldDefn d))"

text \<open>
  Modelled from the spec: \<open>OGRFeatureDefn::GetFieldDefn()\<close>, outside the file, is the
  lookup of a descriptor by index, valid for \<open>0 \<le> index < fieldCount\<close>; outside that
  range it yields the null pointer that the \<open>CPLAssert( poFDefn != NULL )\<close> of every
  accessor tests for.
\<close>

definition GetFieldDefn :: "OGRFeatureDefn \<Rightarrow> int \<Rightarrow> OGRFieldDefn option" where
  "GetFieldDefn d iField =
     (if 0 \<le> iField \<and> iField < GetFieldCount d then Some (papoFieldDefn d ! nat iField) else None)"

text \<open>
  Modelled from the spec: \<open>OGRFieldDefn::GetType()\<close>, outside the file, is the kind of
  the descriptor.
\<close>

definition GetType :: "OGRFieldDefn \<Rightarrow> OGRFieldType" where
  "GetType fd = eType fd"

text \<open>
  Modelled from the spec: \<open>OGRFeatureDefn::Reference()\<close>, outside the file, increments
  the reference count of the definition.
\<close>

definition Reference :: "OGRFeatureDefn \<Rightarrow> OGRFeatureDefn" where
  "Reference d = d\<lparr>nRefCount := nRefCount d + 1\<rparr>"

subsection \<open>Field values\<close>

text \<open>
  Modelled from the spec: the union \<open>OGRField\<close> is declared in a header outside the
  file. The source uses its members \<open>Integer\<close>, \<open>Real\<close> and \<open>String\<close>; the spec has it
  carry no tag, the field definition at the same index saying which member is in use.
  A value of the union is the member that was written last, or the zero bytes that
  \<open>CPLCalloc\<close> hands out, which read as the integer 0, the real 0.0 and the null string
  alike. Reading any other member than the one written is not defined.
\<close>

datatype OGRField =
    Field_Zero
  | Field_Integer "32 word"
  | Field_Real double
  | Field_String "string option"

definition member_Integer :: "OGRField \<Rightarrow> error + 32 word" where
  "member_Integer u = (case u of Field_Zero \<Rightarrow> Inr 0 | Field_Integer n \<Rightarrow> Inr n | _ \<Rightarrow> Inl InactiveMember)"

definition member_Real :: "OGRField \<Rightarrow> error + double" where
  "member_Real u = (case u of Field_Zero \<Rightarrow> Inr (Finite 0) | Field_Real d \<Rightarrow> Inr d | _ \<Rightarrow> Inl InactiveMember)"

definition member_String :: "OGRField \<Rightarrow> error + string option" where
  "member_String u = (case u of Field_Zero \<Rightarrow> Inr None | Field_String s \<Rightarrow> Inr s | _ \<Rightarrow> Inl InactiveMember)"

subsection \<open>Features and the store\<close>

text \<open>
  The macro \<open>OGRNullFID\<close> is defined in a header outside the file; the documentation of
  \<open>SetFID\<close> in the file gives its value, -1.
\<close>

definition OGRNullFID :: int where
  "OGRNullFID = - 1"

text \<open>
  The result codes that the documentation of \<open>SetGeometry\<close> names; the code returns the
  first only.
\<close>

datatype OGRErr = OGRERR_NONE | OGRERR_UNSUPPORTED_GEOMETRY_TYPE

text \<open>
  The members of the class as the file uses them. A pointer is an address of the
  store, \<open>None\<close> when null; \<open>poDefn\<close> is never null. The store holds the feature
  definitions, the geometries and the features that are allocated, and the next
  address that an allocation hands out.
\<close>

record OGRFeature =
  poDefn :: nat
  nFID :: int
  poGeometry :: "nat option"
  pauFields :: "OGRField list"

record 'g store =
  defns :: "nat \<Rightarrow> OGRFeatureDefn option"
  geoms :: "nat \<Rightarrow> 'g option"
  feats :: "nat \<Rightarrow> OGRFeature option"
  fresh :: nat

text \<open>The inline accessors of the header, as the file documents them.\<close>

definition GetDefnRef :: "OGRFeature \<Rightarrow> nat" where
  "GetDefnRef f = poDefn f"

definition GetGeometryRef :: "OGRFeature \<Rightarrow> nat option" where
  "GetGeometryRef f = poGeometry f"

definition GetFID :: "OGRFeature \<Rightarrow> int" where
  "GetFID f = nFID f"

definition this_feature :: "'g store \<Rightarrow> nat \<Rightarrow> error + OGRFeature" where
  "this_feature h this = (case feats h this of None \<Rightarrow> Inl InvalidPointer | Some f \<Rightarrow> Inr f)"

definition feature_defn :: "'g store \<Rightarrow> OGRFeature \<Rightarrow> error + OGRFeatureDefn" where
  "feature_defn h f = (case defns h (poDefn f) of None \<Rightarrow> Inl InvalidPointer | Some d \<Rightarrow> Inr d)"

text \<open>
  The first lines of every accessor:
  \<open>poFDefn = poDefn->GetFieldDefn( iField ); CPLAssert( poFDefn != NULL );\<close>
  and then \<open>poFDefn->GetType()\<close>.
\<close>

definition field_type :: "'g store \<Rightarrow> OGRFeature \<Rightarrow> int \<Rightarrow> error + OGRFieldType" where
  "field_type h f iField =
     and_then (feature_defn h f) (\<lambda>d.
       case GetFieldDefn d iField of
         None \<Rightarrow> Inl AssertionFailed
       | Some fd \<Rightarrow> Inr (GetType fd))"

text \<open>\<open>pauFields[iField]\<close>, read and written.\<close>

definition field_slot :: "OGRFeature \<Rightarrow> int \<Rightarrow> error + OGRField" where
  "field_slot f iField =
     (if 0 \<le> iField \<and> nat iField < length (pauFields f)
      then Inr (pauFields f ! nat iField) else Inl OutOfBounds)"

definition set_slot :: "'g store \<Rightarrow> nat \<Rightarrow> OGRFeature \<Rightarrow> int \<Rightarrow> OGRField \<Rightarrow> error + 'g store" where
  "set_slot h this f iField u =
     (if 0 \<le> iField \<and> nat iField < length (pauFields f)
      then Inr (h\<lparr>feats := (feats h)(this \<mapsto> f\<lparr>pauFields := (pauFields f)[nat iField := u]\<rparr>)\<rparr>)
      else Inl OutOfBounds)"

subsection \<open>Construction and geometry\<close>

text \<open>
  The constructor, with the allocation of \<open>new OGRFeature( poDefn )\<close>: the feature is
  placed at the next free address of the store.
\<close>

definition new_OGRFeature :: "'g store \<Rightarrow> nat \<Rightarrow> error + (nat \<times> 'g store)" where
  "new_OGRFeature h poDefnIn =
     (case defns h poDefnIn of
        None \<Rightarrow> Inl InvalidPointer
      | Some d \<Rightarrow>
          Inr (fresh h,
               h\<lparr>defns := (defns h)(poDefnIn \<mapsto> Reference d),
                 feats := (feats h)(fresh h \<mapsto>
                   \<lparr>poDefn = poDefnIn, nFID = OGRNullFID, poGeometry = None,
                    pauFields = replicate (nat (GetFieldCount d)) Field_Zero\<rparr>),
                 fresh := Suc (fresh h)\<rparr>))"

text \<open>\<open>if( poGeometry != NULL ) delete poGeometry;\<close>\<close>

definition delete_geometry :: "'g store \<Rightarrow> nat option \<Rightarrow> error + 'g store" where
  "delete_geometry h g =
     (case g of
        None \<Rightarrow> Inr h
      | Some a \<Rightarrow>
          (case geoms h a of
             None \<Rightarrow> Inl InvalidPointer
           | Some v \<Rightarrow> Inr (h\<lparr>geoms := (geoms h)(a := None)\<rparr>)))"

text \<open>\<open>poGeomIn->clone()\<close>: a new geometry object, at the next free address.\<close>

definition OGRGeometry_clone :: "'g outside \<Rightarrow> 'g store \<Rightarrow> nat option \<Rightarrow> error + (nat \<times> 'g store)" where
  "OGRGeometry_clone E h g =
     (case g of
        None \<Rightarrow> Inl NullDereference
      | Some a \<Rightarrow>
          (case geoms h a of
             None \<Rightarrow> Inl InvalidPointer
           | Some v \<Rightarrow>
               Inr (fresh h,
                    h\<lparr>geoms := (geoms h)(fresh h \<mapsto> geometry_clone E v),
                      fresh := Suc (fresh h)\<rparr>)))"

definition SetGeometryDirectly :: "'g store \<Rightarrow> nat \<Rightarrow> nat option \<Rightarrow> error + (OGRErr \<times> 'g store)" where
  "SetGeometryDirectly h this poGeomIn =
     and_then (this_feature h this) (\<lambda>f.
     and_then (delete_geometry h (poGeometry f)) (\<lambda>h1.
       Inr (OGRERR_NONE, h1\<lparr>feats := (feats h1)(this \<mapsto> f\<lparr>poGeometry := poGeomIn\<rparr>)\<rparr>)))"

definition SetGeometry :: "'g outside \<Rightarrow> 'g store \<Rightarrow> nat \<Rightarrow> nat option \<Rightarrow> error + (OGRErr \<times> 'g store)" where
  "SetGeometry E h this poGeomIn =
     and_then (this_feature h this) (\<lambda>f.
     and_then (delete_geometry h (poGeometry f)) (\<lambda>h1.
     and_then (OGRGeometry_clone E h1 poGeomIn) (\<lambda>(a, h2).
       Inr (OGRERR_NONE, h2\<lparr>feats := (feats h2)(this \<mapsto> f\<lparr>poGeometry := Some a\<rparr>)\<rparr>))))"

definition SetFID :: "'g store \<Rightarrow> nat \<Rightarrow> int \<Rightarrow> error + (OGRErr \<times> 'g store)" where
  "SetFID h this nFIDIn =
     and_then (this_feature h this) (\<lambda>f.
       Inr (OGRERR_NONE, h\<lparr>feats := (feats h)(this \<mapsto> f\<lparr>nFID := nFIDIn\<rparr>)\<rparr>))"

subsection \<open>Reading a field\<close>

definition GetFieldAsInteger :: "'g store \<Rightarrow> nat \<Rightarrow> int \<Rightarrow> error + 32 word" where
  "GetFieldAsInteger h this iField =
     and_then (this_feature h this) (\<lambda>f.
     and_then (field_type h f iField) (\<lambda>t.
       if t = OFTInteger then and_then (field_slot f iField) member_Integer
       else if t = OFTReal then
         and_then (and_then (field_slot f iField) member_Real) double_to_int
       else if t = OFTString then
         and_then (and_then (field_slot f iField) member_String) (\<lambda>s.
           case s of None \<Rightarrow> Inr 0 | Some str \<Rightarrow> atoi str)
       else Inr 0))"

definition GetFieldAsDouble :: "'g outside \<Rightarrow> 'g store \<Rightarrow> nat \<Rightarrow> int \<Rightarrow> error + double" where
  "GetFieldAsDouble E h this iField =
     and_then (this_feature h this) (\<lambda>f.
     and_then (field_type h f iField) (\<lambda>t.
       if t = OFTReal then and_then (field_slot f iField) member_Real
       else if t = OFTInteger then
         and_then (and_then (field_slot f iField) member_Integer) (\<lambda>n. Inr (int_to_double n))
       else if t = OFTString then
         and_then (and_then (field_slot f iField) member_String) (\<lambda>s.
           case s of None \<Rightarrow> Inr (Finite 0) | Some str \<Rightarrow> Inr (atof (round_double E) str))
       else Inr (Finite 0)))"

text \<open>
  The result is a \<open>const char *\<close>: \<open>None\<close> would be the null pointer. For the numeric
  kinds it is the content of the static buffer when the function returns.
\<close>

definition GetFieldAsString :: "'g outside \<Rightarrow> 'g store \<Rightarrow> nat \<Rightarrow> int \<Rightarrow> error + string option" where
  "GetFieldAsString E h this iField =
     and_then (this_feature h this) (\<lambda>f.
     and_then (field_type h f iField) (\<lambda>t.
       if t = OFTString then
         and_then (and_then (field_slot f iField) member_String) (\<lambda>s.
           case s of None \<Rightarrow> Inr (Some []) | Some str \<Rightarrow> Inr (Some str))
       else if t = OFTInteger then
         and_then (and_then (field_slot f iField) member_Integer) (\<lambda>n. Inr (Some (format_d n)))
       else if t = OFTReal then
         and_then (and_then (field_slot f iField) member_Real) (\<lambda>d. Inr (Some (format_g E d)))
       else Inr (Some [])))"

subsection \<open>Writing a field\<close>

text \<open>
  \<open>CPLFree( pauFields[iField].String )\<close> reads the \<open>String\<close> member of the slot before
  the new string is stored; strings are values here, so nothing else is left of it.
\<close>

definition SetField_int :: "'g outside \<Rightarrow> 'g store \<Rightarrow> nat \<Rightarrow> int \<Rightarrow> 32 word \<Rightarrow> error + 'g store" where
  "SetField_int E h this iField nValue =
     and_then (this_feature h this) (\<lambda>f.
     and_then (field_type h f iField) (\<lambda>t.
       if t = OFTInteger then set_slot h this f iField (Field_Integer nValue)
       else if t = OFTReal then set_slot h this f iField (Field_Real (int_to_double nValue))
       else if t = OFTString then
         and_then (and_then (field_slot f iField) member_String) (\<lambda>old.
         and_then (CPLStrdup E (Some (format_d nValue))) (\<lambda>s.
           set_slot h this f iField (Field_String s)))
       else Inr h))"

definition SetField_double :: "'g outside \<Rightarrow> 'g store \<Rightarrow> nat \<Rightarrow> int \<Rightarrow> double \<Rightarrow> error + 'g store" where
  "SetField_double E h this iField dfValue =
     and_then (this_feature h this) (\<lambda>f.
     and_then (field_type h f iField) (\<lambda>t.
       if t = OFTReal then set_slot h this f iField (Field_Real dfValue)
       else if t = OFTInteger then
         and_then (double_to_int dfValue) (\<lambda>n. set_slot h this f iField (Field_Integer n))
       else if t = OFTString then
         and_then (and_then (field_slot f iField) member_String) (\<lambda>old.
         and_then (CPLStrdup E (Some (format_g E dfValue))) (\<lambda>s.
           set_slot h this f iField (Field_String s)))
       else Inr h))"

text \<open>\<open>atoi\<close> and \<open>atof\<close> read through the pointer they are given.\<close>

definition SetField_string :: "'g outside \<Rightarrow> 'g store \<Rightarrow> nat \<Rightarrow> int \<Rightarrow> string option \<Rightarrow> error + 'g store" where
  "SetField_string E h this iField pszValue =
     and_then (this_feature h this) (\<lambda>f.
     and_then (field_type h f iField) (\<lambda>t.
       if t = OFTString then
         and_then (and_then (field_slot f iField) member_String) (\<lambda>old.
         and_then (CPLStrdup E pszValue) (\<lambda>s.
           set_slot h this f iField (Field_String s)))
       else if t = OFTInteger then
         (case pszValue of
            None \<Rightarrow> Inl NullDereference
          | Some str \<Rightarrow> and_then (atoi str) (\<lambda>n. set_slot h this f iField (Field_Integer n)))
       else if t = OFTReal then
         (case pszValue of
            None \<Rightarrow> Inl NullDereference
          | Some str \<Rightarrow> set_slot h this f iField (Field_Real (atof (round_double E) str)))
       else Inr h))"

text \<open>The raw value is read through \<open>puValue\<close>, by the member of the target's kind.\<close>

definition SetField_raw :: "'g outside \<Rightarrow> 'g store \<Rightarrow> nat \<Rightarrow> int \<Rightarrow> OGRField option \<Rightarrow> error + 'g store" where
  "SetField_raw E h this iField puValue =
     and_then (this_feature h this) (\<lambda>f.
     and_then (field_type h f iField) (\<lambda>t.
       if t = OFTInteger then
         (case puValue of
            None \<Rightarrow> Inl NullDereference
          | Some u \<Rightarrow> and_then (member_Integer u) (\<lambda>n. set_slot h this f iField (Field_Integer n)))
       else if t = OFTReal then
         (case puValue of
            None \<Rightarrow> Inl NullDereference
          | Some u \<Rightarrow> and_then (member_Real u) (\<lambda>d. set_slot h this f iField (Field_Real d)))
       else if t = OFTString then
         and_then (and_then (field_slot f iField) member_String) (\<lambda>old.
           case puValue of
             None \<Rightarrow> Inl NullDereference
           | Some u \<Rightarrow>
               and_then (member_String u) (\<lambda>src.
               and_then (CPLStrdup E src) (\<lambda>s.
                 set_slot h this f iField (Field_String s))))
       else Inr h))"

subsection \<open>Clone and Equal\<close>

text \<open>
  The loop of \<open>Clone\<close> over the indices \<open>0 .. GetFieldCount() - 1\<close>: each step hands
  \<open>pauFields + i\<close> of this feature to \<open>poNew->SetField\<close>.
\<close>

fun Clone_fields :: "'g outside \<Rightarrow> nat \<Rightarrow> nat \<Rightarrow> nat list \<Rightarrow> 'g store \<Rightarrow> error + 'g store" where
  "Clone_fields E this poNew [] h = Inr h"
| "Clone_fields E this poNew (i # is) h =
     and_then (this_feature h this) (\<lambda>f.
     and_then (field_slot f (int i)) (\<lambda>u.
     and_then (SetField_raw E h poNew (int i) (Some u)) (\<lambda>h'.
       Clone_fields E this poNew is h')))"

definition Clone :: "'g outside \<Rightarrow> 'g store \<Rightarrow> nat \<Rightarrow> error + (nat \<times> 'g store)" where
  "Clone E h this =
     and_then (this_feature h this) (\<lambda>f.
     and_then (new_OGRFeature h (poDefn f)) (\<lambda>(poNew, h1).
     and_then (SetGeometry E h1 poNew (poGeometry f)) (\<lambda>(err, h2).
     and_then (feature_defn h2 f) (\<lambda>d.
     and_then (Clone_fields E this poNew [0 ..< nat (GetFieldCount d)] h2) (\<lambda>h3.
       Inr (poNew, h3))))))"

text \<open>\<open>GetGeometryRef()->Equal( poFeature->GetGeometryRef() )\<close>\<close>

definition OGRGeometry_Equal :: "'g outside \<Rightarrow> 'g store \<Rightarrow> nat \<Rightarrow> nat option \<Rightarrow> error + bool" where
  "OGRGeometry_Equal E h a other =
     (case geoms h a of
        None \<Rightarrow> Inl InvalidPointer
      | Some v \<Rightarrow>
          (case other of
             None \<Rightarrow> Inr (geometry_Equal E v None)
           | Some b \<Rightarrow>
               (case geoms h b of
                  None \<Rightarrow> Inl InvalidPointer
                | Some w \<Rightarrow> Inr (geometry_Equal E v (Some w)))))"

definition Equal :: "'g outside \<Rightarrow> 'g store \<Rightarrow> nat \<Rightarrow> nat \<Rightarrow> error + bool" where
  "Equal E h this poFeature =
     (if poFeature = this then Inr True
      else
        and_then (this_feature h this) (\<lambda>a.
        and_then (this_feature h poFeature) (\<lambda>b.
          if GetFID a \<noteq> GetFID b then Inr False
          else if GetDefnRef a \<noteq> GetDefnRef b then Inr False
          else
            (case GetGeometryRef a of
               None \<Rightarrow> Inr True
             | Some g \<Rightarrow>
                 and_then (OGRGeometry_Equal E h g (GetGeometryRef b)) (\<lambda>eq.
                   if \<not> eq then Inr False else Inr True)))))"

subsection \<open>Notions the properties are stated with\<close>

text \<open>
  The kind that the feature definition declares for a field, and the slot stored at an
  index; both are \<open>None\<close> where the feature, its definition or the index is not there.
\<close>

definition declared_kind :: "'g store \<Rightarrow> nat \<Rightarrow> int \<Rightarrow> OGRFieldType option" where
  "declared_kind h this iField =
     (case feats h this of
        None \<Rightarrow> None
      | Some f \<Rightarrow>
          (case defns h (poDefn f) of
             None \<Rightarrow> None
           | Some d \<Rightarrow> map_option GetType (GetFieldDefn d iField)))"

definition stored :: "'g store \<Rightarrow> nat \<Rightarrow> int \<Rightarrow> OGRField option" where
  "stored h this iField =
     (case feats h this of
        None \<Rightarrow> None
      | Some f \<Rightarrow>
          if 0 \<le> iField \<and> nat iField < length (pauFields f)
          then Some (pauFields f ! nat iField) else None)"

text \<open>
  The invariant of the field array: it is as long as the definition has fields, and the
  member in use in every slot is the one of the declared kind (a slot of any other
  kind is never written, so it keeps its zero bytes).
\<close>

definition slot_matches :: "OGRFieldType \<Rightarrow> OGRField \<Rightarrow> bool" where
  "slot_matches t u =
     (case u of
        Field_Zero \<Rightarrow> True
      | Field_Integer n \<Rightarrow> t = OFTInteger
      | Field_Real d \<Rightarrow> t = OFTReal
      | Field_String s \<Rightarrow> t = OFTString)"

definition well_formed :: "'g store \<Rightarrow> nat \<Rightarrow> bool" where
  "well_formed h this =
     (case feats h this of
        None \<Rightarrow> False
      | Some f \<Rightarrow>
          (case defns h (poDefn f) of
             None \<Rightarrow> False
           | Some d \<Rightarrow> list_all2 slot_matches (map eType (papoFieldDefn d)) (pauFields f)))"

text \<open>A call returns the integer \<open>v\<close>.\<close>

definition returns_int :: "error + 32 word \<Rightarrow> int \<Rightarrow> bool" where
  "returns_int res v = (case res of Inl e \<Rightarrow> False | Inr w \<Rightarrow> sint w = v)"

text \<open>
  A non-numeric string: after the white space and an optional sign it does not go on
  with a decimal number, that is with a digit or with a point and a digit.
\<close>

definition starts_decimal :: "string \<Rightarrow> bool" where
  "starts_decimal u =
     (case u of
        [] \<Rightarrow> False
      | c # t \<Rightarrow>
          isdigit c \<or> (c = CHR ''.'' \<and> (case t of [] \<Rightarrow> False | c' # t' \<Rightarrow> isdigit c')))"

definition non_numeric :: "string \<Rightarrow> bool" where
  "non_numeric s = (\<not> starts_decimal (skip_sign (dropWhile isspace s)))"

text \<open>
  The wider class of strings without an integer at their start: after the white space
  and an optional sign there is no digit (so \<open>".5 acres"\<close> is one of them).
\<close>

definition no_leading_digit :: "string \<Rightarrow> bool" where
  "no_leading_digit s =
     (case skip_sign (dropWhile isspace s) of [] \<Rightarrow> True | c # t \<Rightarrow> \<not> isdigit c)"

text \<open>
  The strings that go on, after the white space and an optional sign, with \<open>INF\<close> or
  with \<open>NAN\<close> in any case, whatever follows: \<open>"nancy"\<close>, \<open>"info"\<close>, \<open>"-Infinity"\<close>.
\<close>

definition names_infinity :: "string \<Rightarrow> bool" where
  "names_infinity s =
     matches_ci [(CHR ''i'', CHR ''I''), (CHR ''n'', CHR ''N''), (CHR ''f'', CHR ''F'')]
       (skip_sign (dropWhile isspace s))"

definition names_nan :: "string \<Rightarrow> bool" where
  "names_nan s =
     matches_ci [(CHR ''n'', CHR ''N''), (CHR ''a'', CHR ''A''), (CHR ''n'', CHR ''N'')]
       (skip_sign (dropWhile isspace s))"

text \<open>The value of the geometry a pointer leads to, and whether the pointer is null or live.\<close>

definition geometry_value :: "'g store \<Rightarrow> nat option \<Rightarrow> 'g option" where
  "geometry_value h g = (case g of None \<Rightarrow> None | Some a \<Rightarrow> geoms h a)"

definition valid_geometry :: "'g store \<Rightarrow> nat option \<Rightarrow> bool" where
  "valid_geometry h g = (case g of None \<Rightarrow> True | Some a \<Rightarrow> geoms h a \<noteq> None)"

text \<open>The store with the slot at an index of a feature replaced.\<close>

definition with_slot :: "'g store \<Rightarrow> nat \<Rightarrow> int \<Rightarrow> OGRField \<Rightarrow> 'g store" where
  "with_slot h this iField u =
     (case feats h this of
        None \<Rightarrow> h
      | Some f \<Rightarrow> h\<lparr>feats := (feats h)(this \<mapsto> f\<lparr>pauFields := (pauFields f)[nat iField := u]\<rparr>)\<rparr>)"

text \<open>
  A store is another with at most one slot of one feature written, with a member that
  matches the kind \<open>t\<close>.
\<close>

definition slot_written :: "'g store \<Rightarrow> nat \<Rightarrow> int \<Rightarrow> OGRFieldType \<Rightarrow> 'g store \<Rightarrow> bool" where
  "slot_written h p i t h' \<longleftrightarrow> h' = h \<or> (\<exists>v. slot_matches t v \<and> h' = with_slot h p i v)"

text \<open>
  The slot that \<open>SetField( i, OGRField * )\<close> leaves in a zeroed slot of kind \<open>t\<close> when it
  is handed a slot \<open>u\<close> of that kind, with \<open>s0\<close> what \<open>CPLStrdup\<close> makes of a null pointer.
\<close>

fun copied :: "string option \<Rightarrow> OGRFieldType \<Rightarrow> OGRField \<Rightarrow> OGRField" where
  "copied s0 OFTInteger (Field_Integer n) = Field_Integer n"
| "copied s0 OFTInteger u = Field_Integer 0"
| "copied s0 OFTReal (Field_Real x) = Field_Real x"
| "copied s0 OFTReal u = Field_Real (Finite 0)"
| "copied s0 OFTString (Field_String (Some s)) = Field_String (Some s)"
| "copied s0 OFTString u = Field_String s0"
| "copied s0 (OFTOther k) u = Field_Zero"

text \<open>No object of the store lies at or beyond the next address to be handed out.\<close>

definition free_from_fresh :: "'g store \<Rightarrow> bool" where
  "free_from_fresh h \<longleftrightarrow> (\<forall>a. fresh h \<le> a \<longrightarrow> feats h a = None \<and> geoms h a = None)"

subsection \<open>A store to run the operations on\<close>

text \<open>
  One feature definition, at address 1, with a field of every kind:
  \<open>NAME\<close> (String), \<open>COUNT\<close> (Integer), \<open>AREA\<close> (Real) and \<open>TAGS\<close> (a list kind);
  three features bound to it, the third with a geometry; and stand-ins for what the
  class takes from outside, with integers as geometry values.
\<close>

definition sample_outside :: "int outside" where
  "sample_outside =
     \<lparr>round_double = Finite, format_g = (\<lambda>d. ''12.5''), CPLStrdup_NULL = Inr (Some []),
      geometry_clone = (\<lambda>v. v), geometry_Equal = (\<lambda>v w. w = Some v)\<rparr>"

definition sample_defn :: OGRFeatureDefn where
  "sample_defn =
     \<lparr>nRefCount = 3, pszFeatureClassName = ''LOTS'',
      papoFieldDefn =
        [\<lparr>pszName = ''NAME'', eType = OFTString\<rparr>,
         \<lparr>pszName = ''COUNT'', eType = OFTInteger\<rparr>,
         \<lparr>pszName = ''AREA'', eType = OFTReal\<rparr>,
         \<lparr>pszName = ''TAGS'', eType = OFTOther 5\<rparr>]\<rparr>"

definition sample_f1 :: OGRFeature where
  "sample_f1 =
     \<lparr>poDefn = 1, nFID = 100, poGeometry = None,
      pauFields =
        [Field_String (Some ''Lot A''), Field_Integer 5, Field_Real (Finite (25 / 2)), Field_Zero]\<rparr>"

definition sample_f2 :: OGRFeature where
  "sample_f2 =
     \<lparr>poDefn = 1, nFID = 100, poGeometry = None,
      pauFields = [Field_Zero, Field_Integer 7, Field_Zero, Field_Zero]\<rparr>"

definition sample_f3 :: OGRFeature where
  "sample_f3 =
     \<lparr>poDefn = 1, nFID = 100, poGeometry = Some 5,
      pauFields =
        [Field_String (Some ''12abc''), Field_Integer 5, Field_Real (Finite (- 5 / 2)), Field_Zero]\<rparr>"

definition sample_store :: "int store" where
  "sample_store =
     \<lparr>defns = [1 \<mapsto> sample_defn], geoms = [5 \<mapsto> 42],
      feats = [2 \<mapsto> sample_f1, 3 \<mapsto> sample_f2, 4 \<mapsto> sample_f3], fresh = 6\<rparr>"

text \<open>
  The double nearest to 3.14 is 7070651414971679 / 2^51; \<open>sample_libc\<close> is the
  stand-in with a rounding that is right at 3.14 and leaves every other real as it is.
\<close>

definition nearest_3_14 :: real where
  "nearest_3_14 = 7070651414971679 / 2 ^ 51"

definition sample_libc :: "int outside" where
  "sample_libc =
     sample_outside\<lparr>round_double := (\<lambda>r. if r = 314 / 100 then Finite nearest_3_14 else Finite r)\<rparr>"

text \<open>The same store with a real in the \<open>AREA\<close> field of the third feature that no \<open>int\<close> holds.\<close>

definition overflowing_store :: "int store" where
  "overflowing_store = with_slot sample_store 4 2 (Field_Real (Finite 10000000000))"

text \<open>
  The scenario: a definition with the fields \<open>NAME\<close> (String), \<open>COUNT\<close> (Integer) and
  \<open>AREA\<close> (Real) and nothing else in the store; a feature \<open>f1\<close> is constructed on it
  and given \<open>NAME\<close> = "Lot A", \<open>COUNT\<close> = 5, \<open>AREA\<close> = 12.5 and the feature id 100.
\<close>

definition scenario_defn :: OGRFeatureDefn where
  "scenario_defn =
     \<lparr>nRefCount = 0, pszFeatureClassName = ''LOTS'',
      papoFieldDefn =
        [\<lparr>pszName = ''NAME'', eType = OFTString\<rparr>,
         \<lparr>pszName = ''COUNT'', eType = OFTInteger\<rparr>,
         \<lparr>pszName = ''AREA'', eType = OFTReal\<rparr>]\<rparr>"

definition scenario_start :: "int store" where
  "scenario_start =
     \<lparr>defns = [1 \<mapsto> scenario_defn], geoms = Map.empty, feats = Map.empty, fresh = 2\<rparr>"

definition scenario_f1 :: "error + (nat \<times> int store)" where
  "scenario_f1 =
     and_then (new_OGRFeature scenario_start 1) (\<lambda>(f1, h1).
     and_then (SetField_string sample_outside h1 f1 0 (Some ''Lot A'')) (\<lambda>h2.
     and_then (SetField_int sample_outside h2 f1 1 5) (\<lambda>h3.
     and_then (SetField_double sample_outside h3 f1 2 (Finite (25 / 2))) (\<lambda>h4.
     and_then (SetFID h4 f1 100) (\<lambda>(err, h5).
       Inr (f1, h5))))))"

section \<open>Properties\<close>

lemmas sample_defs =
  sample_outside_def sample_defn_def sample_f1_def sample_f2_def sample_f3_def sample_store_def

subsection \<open>The library functions at work\<close>

lemmas libc_defs =
  atoi_def leading_integer_def to_int_def representable_int_def isspace_def isdigit_def
  skip_sign_def is_negative_def digits_value_def digit_value_def

lemmas strtod_defs =
  atof_def subject_sequence_def decimal_subject_def hex_subject_def significand_def
  exponent_part_def scaled_def isxdigit_def xdigit_value_def xdigits_value_def

lemma format_d_42: "format_d 42 = ''42''"
  by (simp add: format_d_def)

lemma format_d_examples:
  "format_d 0 = ''0''" "format_d (- 17) = ''-17''" "format_d 2147483647 = ''2147483647''"
  by (simp_all add: format_d_def)

lemma atoi_examples:
  "atoi ''  -42abc'' = Inr (- 42)" "atoi ''12abc'' = Inr 12" "atoi ''+7'' = Inr 7"
  "atoi ''99999999999'' = Inl UndefinedConversion"
  by (simp_all add: libc_defs)

text \<open>
  What \<open>atoi\<close> reads: white space, then digits with or without a sign before them,
  up to the first character that is not a digit.
\<close>

lemma leading_integer_parse:
  assumes ws: "\<forall>c\<in>set ws. isspace c" and ds: "ds \<noteq> []" "\<forall>c\<in>set ds. isdigit c"
    and rest: "rest = [] \<or> \<not> isdigit (hd rest)"
  shows "leading_integer (ws @ ds @ rest) = int (digits_value ds)"
    and "leading_integer (ws @ CHR ''+'' # ds @ rest) = int (digits_value ds)"
    and "leading_integer (ws @ CHR ''-'' # ds @ rest) = - int (digits_value ds)"
proof -
  have nd: "\<not> isspace c" if "isdigit c" for c
    using that by (auto simp: isspace_def isdigit_def)
  from ds obtain d ds' where dd: "ds = d # ds'" "isdigit d" by (cases ds) auto
  from rest have tw: "takeWhile isdigit (ds @ rest) = ds"
    using ds(2) by (cases rest) (simp_all add: takeWhile_append2)
  have sk: "dropWhile isspace (ws @ xs) = xs" if "xs \<noteq> []" "\<not> isspace (hd xs)" for xs
    using ws that by (cases xs) (simp_all add: dropWhile_append2)
  from dd nd have "dropWhile isspace (ws @ ds @ rest) = ds @ rest"
    by (intro sk) simp_all
  moreover from dd have "skip_sign (ds @ rest) = ds @ rest" "\<not> is_negative (ds @ rest)"
    by (auto simp: skip_sign_def is_negative_def isdigit_def)
  ultimately show "leading_integer (ws @ ds @ rest) = int (digits_value ds)"
    by (simp add: leading_integer_def tw)
  have "dropWhile isspace (ws @ CHR ''+'' # ds @ rest) = CHR ''+'' # ds @ rest"
    by (intro sk) (simp_all add: isspace_def)
  then show "leading_integer (ws @ CHR ''+'' # ds @ rest) = int (digits_value ds)"
    by (simp add: leading_integer_def skip_sign_def is_negative_def tw)
  have "dropWhile isspace (ws @ CHR ''-'' # ds @ rest) = CHR ''-'' # ds @ rest"
    by (intro sk) (simp_all add: isspace_def)
  then show "leading_integer (ws @ CHR ''-'' # ds @ rest) = - int (digits_value ds)"
    by (simp add: leading_integer_def skip_sign_def is_negative_def tw)
qed

lemma digits_value_examples:
  "digits_value ''0'' = 0" "digits_value ''007'' = 7" "digits_value ''2147483647'' = 2147483647"
  by (simp_all add: digits_value_def digit_value_def)

lemma atof_3_14: "atof rnd ''3.14'' = rnd (314 / 100)"
  by (simp add: strtod_defs libc_defs)

lemma atof_examples:
  "atof Finite ''  -1.5e2xyz'' = Finite (- 150)" "atof Finite ''.5'' = Finite (1 / 2)"
  "atof Finite ''1e-2'' = Finite (1 / 100)" "atof Finite ''0x1.8p1'' = Finite 3"
  "atof Finite ''0xg'' = Finite 0" "atof Finite ''-Infinity'' = NegInf"
  "atof Finite ''abc'' = Finite 0"
  by (simp_all add: strtod_defs libc_defs)

lemma double_to_int_examples:
  "double_to_int (Finite (5 / 2)) = Inr 2" "double_to_int (Finite (- 5 / 2)) = Inr (- 2)"
  "double_to_int (Finite 2147483648) = Inl UndefinedConversion"
  "double_to_int NaN = Inl UndefinedConversion"
  by (simp_all add: double_to_int_def trunc_toward_zero_def to_int_def representable_int_def)

lemma nearest_3_14_close: "\<bar>nearest_3_14 - 314 / 100\<bar> < 1 / 2 ^ 52"
  by (simp add: nearest_3_14_def)

lemma no_leading_digit_takeWhile:
  assumes "no_leading_digit s"
  shows "takeWhile isdigit (skip_sign (dropWhile isspace s)) = []"
  using assms by (cases "skip_sign (dropWhile isspace s)") (simp_all add: no_leading_digit_def)

lemma non_numeric_no_leading_digit: "non_numeric s \<Longrightarrow> no_leading_digit s"
  by (cases "skip_sign (dropWhile isspace s)")
     (simp_all add: non_numeric_def no_leading_digit_def starts_decimal_def)

lemma atoi_no_leading_digit:
  assumes "no_leading_digit s"
  shows "atoi s = Inr 0"
  using no_leading_digit_takeWhile [OF assms]
  by (simp add: atoi_def leading_integer_def digits_value_def to_int_def representable_int_def)

lemma atoi_non_numeric:
  assumes "non_numeric s"
  shows "atoi s = Inr 0"
  using assms by (intro atoi_no_leading_digit non_numeric_no_leading_digit)

lemma atof_non_numeric:
  assumes "non_numeric s" and "\<not> names_infinity s" and "\<not> names_nan s"
  shows "atof rnd s = Finite 0"
proof -
  define u where "u = skip_sign (dropWhile isspace s)"
  from assms(1) have n: "\<not> starts_decimal u" by (simp add: non_numeric_def u_def)
  have dec: "decimal_subject u = NoConversion"
  proof (cases u)
    case Nil
    then show ?thesis by (simp add: decimal_subject_def significand_def)
  next
    case (Cons c t)
    with n have c: "\<not> isdigit c" by (simp add: starts_decimal_def)
    show ?thesis
    proof (cases "c = CHR ''.''")
      case True
      with n Cons have "takeWhile isdigit t = []"
        by (cases t) (simp_all add: starts_decimal_def)
      with Cons c True show ?thesis by (simp add: decimal_subject_def significand_def)
    next
      case False
      with Cons c show ?thesis by (simp add: decimal_subject_def significand_def)
    qed
  qed
  have "\<not> matches_ci [(CHR ''0'', CHR ''0''), (CHR ''x'', CHR ''X'')] u"
  proof (cases u)
    case Nil
    then show ?thesis by simp
  next
    case (Cons c t)
    with n have "\<not> isdigit c" by (simp add: starts_decimal_def)
    with Cons show ?thesis by (auto simp: isdigit_def)
  qed
  with assms(2,3) dec have "subject_sequence u = NoConversion"
    by (simp add: subject_sequence_def names_infinity_def names_nan_def u_def)
  then show ?thesis by (simp add: atof_def u_def)
qed

lemma atof_names_infinity:
  assumes "names_infinity s"
  shows "atof rnd s = (if is_negative (dropWhile isspace s) then NegInf else PosInf)"
  using assms by (simp add: atof_def subject_sequence_def names_infinity_def)

lemma atof_names_nan:
  assumes "names_nan s"
  shows "atof rnd s = NaN"
proof -
  define u where "u = skip_sign (dropWhile isspace s)"
  from assms have n: "matches_ci [(CHR ''n'', CHR ''N''), (CHR ''a'', CHR ''A''), (CHR ''n'', CHR ''N'')] u"
    by (simp add: names_nan_def u_def)
  then have "\<not> matches_ci [(CHR ''i'', CHR ''I''), (CHR ''n'', CHR ''N''), (CHR ''f'', CHR ''F'')] u"
    by (cases u) auto
  with n have "subject_sequence u = NotANumber" by (simp add: subject_sequence_def)
  then show ?thesis by (simp add: atof_def u_def)
qed

lemma non_numeric_examples:
  "non_numeric ''abc''" "non_numeric ''nancy''" "non_numeric ''info''" "non_numeric '' -.x''"
  "\<not> non_numeric ''12abc''" "\<not> non_numeric ''.5 acres''" "no_leading_digit ''.5 acres''"
  "names_nan ''nancy''" "names_infinity ''info''" "names_infinity ''-Infinity''"
  "\<not> names_nan ''abc''" "\<not> names_infinity ''abc''"
  by (simp_all add: non_numeric_def starts_decimal_def no_leading_digit_def names_nan_def
      names_infinity_def libc_defs)

lemma atof_Nil: "atof rnd [] = Finite 0"
  by (simp add: strtod_defs libc_defs)

lemma atoi_Nil: "atoi [] = Inr 0"
  by (simp add: libc_defs)

lemmas kind_defs = declared_kind_def GetFieldDefn_def GetFieldCount_def GetType_def

lemma sample_well_formed:
  "well_formed sample_store 2" "well_formed sample_store 3" "well_formed sample_store 4"
  by (simp_all add: well_formed_def sample_defs slot_matches_def)

lemma sample_kinds:
  "declared_kind sample_store p 0 = (if p \<in> {2, 3, 4} then Some OFTString else None)"
  "declared_kind sample_store p 1 = (if p \<in> {2, 3, 4} then Some OFTInteger else None)"
  "declared_kind sample_store p 2 = (if p \<in> {2, 3, 4} then Some OFTReal else None)"
  "declared_kind sample_store p 3 = (if p \<in> {2, 3, 4} then Some (OFTOther 5) else None)"
  by (simp_all add: kind_defs sample_defs)

lemma sample_stored:
  "stored sample_store 4 0 = Some (Field_String (Some ''12abc''))"
  "stored sample_store 4 1 = Some (Field_Integer 5)"
  "stored sample_store 4 2 = Some (Field_Real (Finite (- 5 / 2)))"
  "stored sample_store 4 3 = Some Field_Zero"
  "stored sample_store 3 0 = Some Field_Zero"
  by (simp_all add: stored_def sample_defs)

subsection \<open>Equal\<close>

lemma Equal_reflexive: "Equal E h p p = Inr True"
  by (simp add: Equal_def)

text \<open>
  C2. \<open>Equal\<close> does not look at the field values: two distinct features bound to the
  same feature definition object, with the same feature id and both without a geometry,
  are equal whatever their field arrays hold.
\<close>

theorem Equal_ignores_field_values:
  assumes "a \<noteq> b" and "feats h a = Some fa" and "feats h b = Some fb"
    and "poDefn fa = poDefn fb" and "nFID fa = nFID fb"
    and "poGeometry fa = None" and "poGeometry fb = None"
  shows "Equal E h a b = Inr True"
  using assms
  by (simp add: Equal_def and_then_def this_feature_def GetFID_def GetDefnRef_def
      GetGeometryRef_def)

theorem Equal_ignores_field_values_witness:
  "Equal sample_outside sample_store 2 3 = Inr True
   \<and> pauFields sample_f1 \<noteq> pauFields sample_f2"
proof -
  have "Equal sample_outside sample_store 2 3 = Inr True"
    by (rule Equal_ignores_field_values [where fa = sample_f1 and fb = sample_f2])
       (simp_all add: sample_defs)
  then show ?thesis by (simp add: sample_defs)
qed

text \<open>
  C3. The geometry test of \<open>Equal\<close> looks at this side only: for two distinct features
  with the same feature id and the same feature definition object, a feature without
  a geometry equals the other whether or not the other has one; when this feature has
  a geometry, the result is that of \<open>OGRGeometry::Equal\<close> on it and the other's
  geometry (a null pointer when the other has none).
\<close>

theorem Equal_geometry_one_sided:
  assumes "a \<noteq> b" and "feats h a = Some fa" and "feats h b = Some fb"
    and "poDefn fa = poDefn fb" and "nFID fa = nFID fb"
  shows "(poGeometry fa = None \<longrightarrow> Equal E h a b = Inr True)
       \<and> (\<forall>g v. poGeometry fa = Some g \<and> geoms h g = Some v \<and> valid_geometry h (poGeometry fb)
             \<longrightarrow> Equal E h a b = Inr (geometry_Equal E v (geometry_value h (poGeometry fb))))"
  using assms
  by (auto simp add: Equal_def and_then_def this_feature_def GetFID_def GetDefnRef_def
      GetGeometryRef_def OGRGeometry_Equal_def valid_geometry_def geometry_value_def
      split: option.splits)

theorem Equal_geometry_one_sided_witness:
  "Equal sample_outside sample_store 2 4 = Inr True
   \<and> Equal sample_outside sample_store 4 2 = Inr False"
proof -
  have fwd: "Equal sample_outside sample_store 2 4 = Inr True"
    using Equal_geometry_one_sided [of 2 4 sample_store sample_f1 sample_f3 sample_outside]
    by (simp add: sample_defs)
  have "Equal sample_outside sample_store 4 2
          = Inr (geometry_Equal sample_outside 42 (geometry_value sample_store (poGeometry sample_f1)))"
    using Equal_geometry_one_sided [of 4 2 sample_store sample_f3 sample_f1 sample_outside]
    by (simp add: sample_defs valid_geometry_def)
  then have "Equal sample_outside sample_store 4 2 = Inr False"
    by (simp add: sample_defs geometry_value_def)
  with fwd show ?thesis by simp
qed

text \<open>
  C4. Two distinct features whose feature ids differ are not equal, whatever else
  they hold.
\<close>

theorem Equal_differing_FID:
  assumes "a \<noteq> b" and "feats h a = Some fa" and "feats h b = Some fb"
    and "nFID fa \<noteq> nFID fb"
  shows "Equal E h a b = Inr False"
  using assms
  by (simp add: Equal_def and_then_def this_feature_def GetFID_def)

theorem Equal_differing_FID_witness:
  "Equal sample_outside
     (sample_store\<lparr>feats := (feats sample_store)(3 \<mapsto> sample_f1\<lparr>nFID := OGRNullFID\<rparr>)\<rparr>) 2 3
   = Inr False"
  by (rule Equal_differing_FID [where fa = sample_f1 and fb = "sample_f1\<lparr>nFID := OGRNullFID\<rparr>"])
     (simp_all add: sample_defs OGRNullFID_def)

subsection \<open>The accessors, with the pointers and the index resolved\<close>

text \<open>
  Where the feature is in the store, its definition declares a kind for the index and
  the slot is there, each accessor is the branch on the kind that its source shows.
\<close>

lemma field_access:
  assumes "declared_kind h p i = Some t" and "stored h p i = Some u"
  obtains f where "this_feature h p = Inr f" and "field_type h f i = Inr t"
    and "field_slot f i = Inr u"
proof -
  from assms(1) obtain f d where f: "feats h p = Some f" and d: "defns h (poDefn f) = Some d"
    and t: "map_option GetType (GetFieldDefn d i) = Some t"
    by (auto simp: declared_kind_def split: option.splits)
  from assms(2) f have i: "0 \<le> i" "nat i < length (pauFields f)" and u: "pauFields f ! nat i = u"
    by (auto simp: stored_def split: if_splits)
  have 1: "this_feature h p = Inr f" using f by (simp add: this_feature_def)
  have 2: "field_type h f i = Inr t" using d t
    by (auto simp: field_type_def feature_defn_def and_then_def)
  have 3: "field_slot f i = Inr u" using i u by (simp add: field_slot_def)
  from 1 2 3 show thesis by (rule that)
qed

lemma set_slot_eq:
  assumes "this_feature h p = Inr f" and "field_slot f i = Inr u"
  shows "set_slot h p f i v = Inr (with_slot h p i v)"
  using assms
  by (auto simp: set_slot_def with_slot_def this_feature_def field_slot_def
      split: option.splits if_splits)

lemma GetFieldAsInteger_eq:
  assumes "declared_kind h p i = Some t" and "stored h p i = Some u"
  shows "GetFieldAsInteger h p i =
     (if t = OFTInteger then member_Integer u
      else if t = OFTReal then and_then (member_Real u) double_to_int
      else if t = OFTString then
        and_then (member_String u) (\<lambda>s. case s of None \<Rightarrow> Inr 0 | Some str \<Rightarrow> atoi str)
      else Inr 0)"
proof -
  from assms obtain f where *: "this_feature h p = Inr f" "field_type h f i = Inr t"
    "field_slot f i = Inr u"
    by (rule field_access)
  note ** = set_slot_eq [OF *(1) *(3)]
  show ?thesis
    by (cases t) (simp_all add: GetFieldAsInteger_def and_then_def * **)
qed

lemma GetFieldAsDouble_eq:
  assumes "declared_kind h p i = Some t" and "stored h p i = Some u"
  shows "GetFieldAsDouble E h p i =
     (if t = OFTReal then member_Real u
      else if t = OFTInteger then and_then (member_Integer u) (\<lambda>n. Inr (int_to_double n))
      else if t = OFTString then
        and_then (member_String u)
          (\<lambda>s. case s of None \<Rightarrow> Inr (Finite 0) | Some str \<Rightarrow> Inr (atof (round_double E) str))
      else Inr (Finite 0))"
proof -
  from assms obtain f where *: "this_feature h p = Inr f" "field_type h f i = Inr t"
    "field_slot f i = Inr u"
    by (rule field_access)
  note ** = set_slot_eq [OF *(1) *(3)]
  show ?thesis
    by (cases t) (simp_all add: GetFieldAsDouble_def and_then_def * **)
qed

lemma GetFieldAsString_eq:
  assumes "declared_kind h p i = Some t" and "stored h p i = Some u"
  shows "GetFieldAsString E h p i =
     (if t = OFTString then
        and_then (member_String u) (\<lambda>s. case s of None \<Rightarrow> Inr (Some []) | Some str \<Rightarrow> Inr (Some str))
      else if t = OFTInteger then and_then (member_Integer u) (\<lambda>n. Inr (Some (format_d n)))
      else if t = OFTReal then and_then (member_Real u) (\<lambda>d. Inr (Some (format_g E d)))
      else Inr (Some []))"
proof -
  from assms obtain f where *: "this_feature h p = Inr f" "field_type h f i = Inr t"
    "field_slot f i = Inr u"
    by (rule field_access)
  note ** = set_slot_eq [OF *(1) *(3)]
  show ?thesis
    by (cases t) (simp_all add: GetFieldAsString_def and_then_def * **)
qed

lemma SetField_int_eq:
  assumes "declared_kind h p i = Some t" and "stored h p i = Some u"
  shows "SetField_int E h p i n =
     (if t = OFTInteger then Inr (with_slot h p i (Field_Integer n))
      else if t = OFTReal then Inr (with_slot h p i (Field_Real (int_to_double n)))
      else if t = OFTString then
        and_then (member_String u) (\<lambda>old. Inr (with_slot h p i (Field_String (Some (format_d n)))))
      else Inr h)"
proof -
  from assms obtain f where *: "this_feature h p = Inr f" "field_type h f i = Inr t"
    "field_slot f i = Inr u"
    by (rule field_access)
  note ** = set_slot_eq [OF *(1) *(3)]
  show ?thesis
    by (cases t) (simp_all add: SetField_int_def and_then_def CPLStrdup_def * **)
qed

lemma SetField_double_eq:
  assumes "declared_kind h p i = Some t" and "stored h p i = Some u"
  shows "SetField_double E h p i x =
     (if t = OFTReal then Inr (with_slot h p i (Field_Real x))
      else if t = OFTInteger then
        and_then (double_to_int x) (\<lambda>n. Inr (with_slot h p i (Field_Integer n)))
      else if t = OFTString then
        and_then (member_String u) (\<lambda>old. Inr (with_slot h p i (Field_String (Some (format_g E x)))))
      else Inr h)"
proof -
  from assms obtain f where *: "this_feature h p = Inr f" "field_type h f i = Inr t"
    "field_slot f i = Inr u"
    by (rule field_access)
  note ** = set_slot_eq [OF *(1) *(3)]
  show ?thesis
    by (cases t) (simp_all add: SetField_double_def and_then_def CPLStrdup_def * **)
qed

lemma SetField_string_eq:
  assumes "declared_kind h p i = Some t" and "stored h p i = Some u"
  shows "SetField_string E h p i (Some s) =
     (if t = OFTString then
        and_then (member_String u) (\<lambda>old. Inr (with_slot h p i (Field_String (Some s))))
      else if t = OFTInteger then
        and_then (atoi s) (\<lambda>n. Inr (with_slot h p i (Field_Integer n)))
      else if t = OFTReal then Inr (with_slot h p i (Field_Real (atof (round_double E) s)))
      else Inr h)"
proof -
  from assms obtain f where *: "this_feature h p = Inr f" "field_type h f i = Inr t"
    "field_slot f i = Inr u"
    by (rule field_access)
  note ** = set_slot_eq [OF *(1) *(3)]
  show ?thesis
    by (cases t) (simp_all add: SetField_string_def and_then_def CPLStrdup_def * **)
qed

lemma declared_kind_with_slot [simp]:
  "declared_kind (with_slot h p i u) q j = declared_kind h q j"
  by (auto simp: declared_kind_def with_slot_def split: option.splits)

lemma stored_with_slot_same [simp]:
  "stored h p i = Some u \<Longrightarrow> stored (with_slot h p i v) p i = Some v"
  by (auto simp: stored_def with_slot_def split: option.splits if_splits)

lemma stored_with_slot_other:
  "q \<noteq> p \<or> j \<noteq> i \<Longrightarrow> 0 \<le> i \<Longrightarrow> stored (with_slot h p i v) q j = stored h q j"
  by (auto simp: stored_def with_slot_def split: option.splits if_splits)

lemma well_formed_stored:
  assumes "well_formed h p" and "declared_kind h p i = Some t"
  obtains u where "stored h p i = Some u" and "slot_matches t u"
proof -
  from assms(1) obtain f d where f: "feats h p = Some f" and d: "defns h (poDefn f) = Some d"
    and all: "list_all2 slot_matches (map eType (papoFieldDefn d)) (pauFields f)"
    by (auto simp: well_formed_def split: option.splits)
  from assms(2) f d have i: "0 \<le> i" "nat i < length (papoFieldDefn d)"
    and t: "eType (papoFieldDefn d ! nat i) = t"
    by (auto simp: declared_kind_def GetFieldDefn_def GetFieldCount_def GetType_def split: if_splits)
  from all have len: "length (pauFields f) = length (papoFieldDefn d)"
    by (simp add: list_all2_lengthD [symmetric])
  from i have "slot_matches (map eType (papoFieldDefn d) ! nat i) (pauFields f ! nat i)"
    by (intro list_all2_nthD [OF all]) simp
  with i t have m: "slot_matches t (pauFields f ! nat i)" by simp
  from f i len have "stored h p i = Some (pauFields f ! nat i)" by (simp add: stored_def)
  then show thesis using m by (rule that)
qed

lemma member_simps [simp]:
  "member_Integer Field_Zero = Inr 0" "member_Integer (Field_Integer n) = Inr n"
  "member_Real Field_Zero = Inr (Finite 0)" "member_Real (Field_Real x) = Inr x"
  "member_String Field_Zero = Inr None" "member_String (Field_String s) = Inr s"
  by (simp_all add: member_Integer_def member_Real_def member_String_def)

lemma member_String_matches:
  "slot_matches OFTString u \<Longrightarrow> \<exists>s. member_String u = Inr s"
  by (cases u) (simp_all add: slot_matches_def member_String_def)

subsection \<open>Native round trip\<close>

text \<open>
  C7. On a field of kind Integer, Real or String of a well-formed feature, storing a
  value of the kind's own type with the matching \<open>SetField\<close> and reading it with the
  matching getter gives the value back: any \<open>int\<close>, any \<open>double\<close>, any string.
\<close>

theorem native_round_trip:
  assumes "well_formed h p"
  shows "(declared_kind h p i = Some OFTInteger \<longrightarrow>
            and_then (SetField_int E h p i n) (\<lambda>h'. GetFieldAsInteger h' p i) = Inr n)
       \<and> (declared_kind h p i = Some OFTReal \<longrightarrow>
            and_then (SetField_double E h p i x) (\<lambda>h'. GetFieldAsDouble E h' p i) = Inr x)
       \<and> (declared_kind h p i = Some OFTString \<longrightarrow>
            and_then (SetField_string E h p i (Some s)) (\<lambda>h'. GetFieldAsString E h' p i) = Inr (Some s))"
proof (intro conjI impI)
  assume k: "declared_kind h p i = Some OFTInteger"
  from assms k obtain u where u: "stored h p i = Some u" by (rule well_formed_stored)
  show "and_then (SetField_int E h p i n) (\<lambda>h'. GetFieldAsInteger h' p i) = Inr n"
    by (simp add: SetField_int_eq [OF k u] GetFieldAsInteger_eq [where t = OFTInteger] k u
        and_then_def)
next
  assume k: "declared_kind h p i = Some OFTReal"
  from assms k obtain u where u: "stored h p i = Some u" by (rule well_formed_stored)
  show "and_then (SetField_double E h p i x) (\<lambda>h'. GetFieldAsDouble E h' p i) = Inr x"
    by (simp add: SetField_double_eq [OF k u] GetFieldAsDouble_eq [where t = OFTReal] k u
        and_then_def)
next
  assume k: "declared_kind h p i = Some OFTString"
  from assms k obtain u where u: "stored h p i = Some u" and m: "slot_matches OFTString u"
    by (rule well_formed_stored)
  from m obtain old where old: "member_String u = Inr old"
    using member_String_matches by blast
  show "and_then (SetField_string E h p i (Some s)) (\<lambda>h'. GetFieldAsString E h' p i) = Inr (Some s)"
    by (simp add: SetField_string_eq [OF k u] GetFieldAsString_eq [where t = OFTString] k u old
        and_then_def)
qed

theorem native_round_trip_witness:
  "and_then (SetField_int sample_outside sample_store 3 1 (- 9)) (\<lambda>h'. GetFieldAsInteger h' 3 1) = Inr (- 9)
   \<and> and_then (SetField_double sample_outside sample_store 3 2 (Finite (7 / 4))) (\<lambda>h'. GetFieldAsDouble sample_outside h' 3 2) = Inr (Finite (7 / 4))
   \<and> and_then (SetField_string sample_outside sample_store 3 0 (Some ''Lot B'')) (\<lambda>h'. GetFieldAsString sample_outside h' 3 0) = Inr (Some ''Lot B'')"
proof -
  have wf: "well_formed sample_store 3"
    by (simp add: well_formed_def sample_defs slot_matches_def)
  have k: "declared_kind sample_store 3 1 = Some OFTInteger"
    "declared_kind sample_store 3 2 = Some OFTReal"
    "declared_kind sample_store 3 0 = Some OFTString"
    by (simp_all add: declared_kind_def GetFieldDefn_def GetFieldCount_def GetType_def sample_defs)
  from native_round_trip [OF wf, of 1 sample_outside "- 9"] 
    native_round_trip [OF wf, of 2 sample_outside _ "Finite (7/4)"] 
    native_round_trip [OF wf, of 0 sample_outside _ _ "''Lot B''"] k
  show ?thesis by simp
qed

subsection \<open>Coercions between the kinds\<close>

text \<open>
  C5, as the code has it. On a well-formed feature: setting the integer 42 on a String
  field and reading it as a string gives \<open>"42"\<close>; setting the string \<open>"3.14"\<close> on a Real
  field and reading it as a double gives 3.14 (the double that 3.14 rounds to); setting
  a non-numeric string, or any string with no digit after its white space and sign, on
  an Integer field gives 0 from \<open>GetFieldAsInteger\<close>; setting a non-numeric string on a
  Real field gives 0.0 from \<open>GetFieldAsDouble\<close> unless the string goes on with \<open>INF\<close> or
  \<open>NAN\<close>, where \<open>atof\<close> reads an infinity (of the sign given) or a NaN.
\<close>

theorem cross_kind_coercions:
  assumes "well_formed h p"
  shows "(declared_kind h p i = Some OFTString \<longrightarrow>
            and_then (SetField_int E h p i 42) (\<lambda>h'. GetFieldAsString E h' p i)
              = Inr (Some ''42''))
       \<and> (declared_kind h p j = Some OFTReal \<longrightarrow>
            and_then (SetField_string E h p j (Some ''3.14'')) (\<lambda>h'. GetFieldAsDouble E h' p j)
              = Inr (round_double E (314 / 100)))
       \<and> (declared_kind h p k = Some OFTInteger \<and> (non_numeric s \<or> no_leading_digit s) \<longrightarrow>
            and_then (SetField_string E h p k (Some s)) (\<lambda>h'. GetFieldAsInteger h' p k) = Inr 0)
       \<and> (declared_kind h p j = Some OFTReal \<and> non_numeric s
              \<and> \<not> names_infinity s \<and> \<not> names_nan s \<longrightarrow>
            and_then (SetField_string E h p j (Some s)) (\<lambda>h'. GetFieldAsDouble E h' p j)
              = Inr (Finite 0))
       \<and> (declared_kind h p j = Some OFTReal \<and> names_nan s \<longrightarrow>
            and_then (SetField_string E h p j (Some s)) (\<lambda>h'. GetFieldAsDouble E h' p j)
              = Inr NaN)
       \<and> (declared_kind h p j = Some OFTReal \<and> names_infinity s \<longrightarrow>
            and_then (SetField_string E h p j (Some s)) (\<lambda>h'. GetFieldAsDouble E h' p j)
              = Inr (if is_negative (dropWhile isspace s) then NegInf else PosInf))"
proof -
  have a: "and_then (SetField_int E h p i 42) (\<lambda>h'. GetFieldAsString E h' p i) = Inr (Some ''42'')"
    if k: "declared_kind h p i = Some OFTString"
  proof -
    from assms k obtain u where u: "stored h p i = Some u" and m: "slot_matches OFTString u"
      by (rule well_formed_stored)
    from m obtain old where old: "member_String u = Inr old"
      using member_String_matches by blast
    show ?thesis
      by (simp add: SetField_int_eq [OF k u] GetFieldAsString_eq [where t = OFTString]
          k u old and_then_def format_d_42)
  qed
  have real: "and_then (SetField_string E h p j (Some str)) (\<lambda>h'. GetFieldAsDouble E h' p j)
                = Inr (atof (round_double E) str)"
    if k: "declared_kind h p j = Some OFTReal" for str
  proof -
    from assms k obtain u where u: "stored h p j = Some u" by (rule well_formed_stored)
    show ?thesis
      by (simp add: SetField_string_eq [OF k u] GetFieldAsDouble_eq [where t = OFTReal]
          k u and_then_def)
  qed
  have c: "and_then (SetField_string E h p k (Some s)) (\<lambda>h'. GetFieldAsInteger h' p k) = Inr 0"
    if k: "declared_kind h p k = Some OFTInteger" and n: "non_numeric s \<or> no_leading_digit s"
  proof -
    from assms k obtain u where u: "stored h p k = Some u" by (rule well_formed_stored)
    from n have "atoi s = Inr 0"
      by (auto intro: atoi_no_leading_digit atoi_non_numeric)
    then show ?thesis
      by (simp add: SetField_string_eq [OF k u] GetFieldAsInteger_eq [where t = OFTInteger]
          k u and_then_def)
  qed
  from a real [of "''3.14''"] c real [of s] show ?thesis
    by (simp add: atof_3_14 atof_non_numeric atof_names_nan atof_names_infinity)
qed

theorem cross_kind_coercions_witness:
  "and_then (SetField_int sample_libc sample_store 2 0 42)
      (\<lambda>h'. GetFieldAsString sample_libc h' 2 0) = Inr (Some ''42'')
   \<and> and_then (SetField_string sample_libc sample_store 2 2 (Some ''3.14''))
      (\<lambda>h'. GetFieldAsDouble sample_libc h' 2 2) = Inr (Finite nearest_3_14)
   \<and> and_then (SetField_string sample_libc sample_store 2 1 (Some ''abc''))
      (\<lambda>h'. GetFieldAsInteger h' 2 1) = Inr 0
   \<and> and_then (SetField_string sample_libc sample_store 2 1 (Some ''.5 acres''))
      (\<lambda>h'. GetFieldAsInteger h' 2 1) = Inr 0
   \<and> and_then (SetField_string sample_libc sample_store 2 2 (Some ''abc''))
      (\<lambda>h'. GetFieldAsDouble sample_libc h' 2 2) = Inr (Finite 0)
   \<and> and_then (SetField_string sample_libc sample_store 2 2 (Some ''nancy''))
      (\<lambda>h'. GetFieldAsDouble sample_libc h' 2 2) = Inr NaN
   \<and> and_then (SetField_string sample_libc sample_store 2 2 (Some ''-Infinity''))
      (\<lambda>h'. GetFieldAsDouble sample_libc h' 2 2) = Inr NegInf"
proof -
  have k: "declared_kind sample_store 2 0 = Some OFTString"
    "declared_kind sample_store 2 2 = Some OFTReal"
    "declared_kind sample_store 2 1 = Some OFTInteger"
    by (simp_all add: sample_kinds)
  have r: "round_double sample_libc (314 / 100) = Finite nearest_3_14"
    by (simp add: sample_libc_def)
  have neg: "is_negative (dropWhile isspace ''-Infinity'')"
    by (simp add: is_negative_def isspace_def)
  note t = cross_kind_coercions [OF sample_well_formed(1),
      where i = 0 and j = 2 and k = 1 and E = sample_libc]
  have 1: "and_then (SetField_int sample_libc sample_store 2 0 42)
      (\<lambda>h'. GetFieldAsString sample_libc h' 2 0) = Inr (Some ''42'')"
    using t [where s = "''abc''"] k(1) by blast
  have "and_then (SetField_string sample_libc sample_store 2 2 (Some ''3.14''))
      (\<lambda>h'. GetFieldAsDouble sample_libc h' 2 2) = Inr (round_double sample_libc (314 / 100))"
    using t [where s = "''abc''"] k(2) by blast
  then have 2: "and_then (SetField_string sample_libc sample_store 2 2 (Some ''3.14''))
      (\<lambda>h'. GetFieldAsDouble sample_libc h' 2 2) = Inr (Finite nearest_3_14)"
    by (simp only: r)
  have 3: "and_then (SetField_string sample_libc sample_store 2 1 (Some ''abc''))
      (\<lambda>h'. GetFieldAsInteger h' 2 1) = Inr 0"
    using t [where s = "''abc''"] k(3) non_numeric_examples(1) by blast
  have 4: "and_then (SetField_string sample_libc sample_store 2 1 (Some ''.5 acres''))
      (\<lambda>h'. GetFieldAsInteger h' 2 1) = Inr 0"
    using t [where s = "''.5 acres''"] k(3) non_numeric_examples(7) by blast
  have 5: "and_then (SetField_string sample_libc sample_store 2 2 (Some ''abc''))
      (\<lambda>h'. GetFieldAsDouble sample_libc h' 2 2) = Inr (Finite 0)"
    using t [where s = "''abc''"] k(2) non_numeric_examples(1,11,12) by blast
  have 6: "and_then (SetField_string sample_libc sample_store 2 2 (Some ''nancy''))
      (\<lambda>h'. GetFieldAsDouble sample_libc h' 2 2) = Inr NaN"
    using t [where s = "''nancy''"] k(2) non_numeric_examples(8) by blast
  have "and_then (SetField_string sample_libc sample_store 2 2 (Some ''-Infinity''))
      (\<lambda>h'. GetFieldAsDouble sample_libc h' 2 2)
      = Inr (if is_negative (dropWhile isspace ''-Infinity'') then NegInf else PosInf)"
    using t [where s = "''-Infinity''"] k(2) non_numeric_examples(10) by blast
  then have 7: "and_then (SetField_string sample_libc sample_store 2 2 (Some ''-Infinity''))
      (\<lambda>h'. GetFieldAsDouble sample_libc h' 2 2) = Inr NegInf"
    by (simp only: neg if_True)
  from 1 2 3 4 5 6 7 show ?thesis by (intro conjI)
qed

text \<open>
  C5 as it is worded has every non-numeric string give 0.0 on a Real field. The string
  \<open>"nancy"\<close> is non-numeric and goes on with \<open>NAN\<close>: set on the \<open>AREA\<close> field it reads
  back as a NaN, not as 0.0.
\<close>

theorem non_numeric_nan_counterexample:
  "non_numeric ''nancy''
   \<and> declared_kind sample_store 2 2 = Some OFTReal
   \<and> and_then (SetField_string sample_outside sample_store 2 2 (Some ''nancy''))
        (\<lambda>h'. GetFieldAsDouble sample_outside h' 2 2) = Inr NaN
   \<and> and_then (SetField_string sample_outside sample_store 2 2 (Some ''nancy''))
        (\<lambda>h'. GetFieldAsDouble sample_outside h' 2 2) \<noteq> Inr (Finite 0)"
proof -
  have k: "declared_kind sample_store 2 2 = Some OFTReal" by (simp add: sample_kinds)
  have u: "stored sample_store 2 2 = Some (Field_Real (Finite (25 / 2)))"
    by (simp add: stored_def sample_defs)
  have "and_then (SetField_string sample_outside sample_store 2 2 (Some ''nancy''))
        (\<lambda>h'. GetFieldAsDouble sample_outside h' 2 2) = Inr (atof (round_double sample_outside) ''nancy'')"
    by (simp add: SetField_string_eq [OF k u] GetFieldAsDouble_eq [where t = OFTReal] k u
        and_then_def)
  also have "atof (round_double sample_outside) ''nancy'' = NaN"
    by (simp add: atof_names_nan non_numeric_examples)
  finally show ?thesis using k by (simp add: non_numeric_examples)
qed

subsection \<open>Reading a field as an integer\<close>

lemma returns_int_to_int:
  "representable_int v \<Longrightarrow> returns_int (to_int v) v"
  by (simp add: returns_int_def to_int_def representable_int_def sint_sbintrunc'
      signed_take_bit_int_eq_self)

text \<open>
  C6, as the code has it. For a valid index whose slot is there, \<open>GetFieldAsInteger\<close>
  returns by the declared kind: the stored integer for Integer; for Real the stored
  real truncated toward zero when that is an \<open>int\<close>, and otherwise (the cast
  \<open>(int)\<close> being undefined there) nothing that the model can name; for String the
  integer at the start of the stored string when that is an \<open>int\<close> (\<open>atoi\<close> being
  undefined otherwise), which is 0 when the string has no number at its start, and 0
  for the null string; 0 for a slot that still holds its zero bytes; 0 for any other
  kind.
\<close>

theorem GetFieldAsInteger_by_kind:
  assumes "declared_kind h p i = Some t" and "stored h p i = Some u"
  shows "(t = OFTInteger \<and> u = Field_Integer n \<longrightarrow> GetFieldAsInteger h p i = Inr n)
       \<and> (t = OFTReal \<and> u = Field_Real (Finite r) \<and> representable_int (trunc_toward_zero r)
            \<longrightarrow> returns_int (GetFieldAsInteger h p i) (trunc_toward_zero r))
       \<and> (t = OFTReal \<and> u = Field_Real (Finite r) \<and> \<not> representable_int (trunc_toward_zero r)
            \<longrightarrow> GetFieldAsInteger h p i = Inl UndefinedConversion)
       \<and> (t = OFTString \<and> u = Field_String (Some s) \<and> representable_int (leading_integer s)
            \<longrightarrow> returns_int (GetFieldAsInteger h p i) (leading_integer s))
       \<and> (t = OFTString \<and> u = Field_String (Some s) \<and> \<not> representable_int (leading_integer s)
            \<longrightarrow> GetFieldAsInteger h p i = Inl UndefinedConversion)
       \<and> (t = OFTString \<and> u = Field_String (Some s) \<and> non_numeric s
            \<longrightarrow> GetFieldAsInteger h p i = Inr 0)
       \<and> (t = OFTString \<and> u = Field_String None \<longrightarrow> GetFieldAsInteger h p i = Inr 0)
       \<and> (u = Field_Zero \<longrightarrow> GetFieldAsInteger h p i = Inr 0)
       \<and> (t \<notin> {OFTInteger, OFTReal, OFTString} \<longrightarrow> GetFieldAsInteger h p i = Inr 0)"
proof -
  note eq = GetFieldAsInteger_eq [OF assms]
  have 1: "t = OFTInteger \<and> u = Field_Integer n \<longrightarrow> GetFieldAsInteger h p i = Inr n"
    by (simp add: eq)
  have 2: "t = OFTReal \<and> u = Field_Real (Finite r) \<and> representable_int (trunc_toward_zero r)
            \<longrightarrow> returns_int (GetFieldAsInteger h p i) (trunc_toward_zero r)"
    by (simp add: eq and_then_def double_to_int_def returns_int_to_int)
  have 3: "t = OFTReal \<and> u = Field_Real (Finite r) \<and> \<not> representable_int (trunc_toward_zero r)
            \<longrightarrow> GetFieldAsInteger h p i = Inl UndefinedConversion"
    by (simp add: eq and_then_def double_to_int_def to_int_def)
  have 4: "t = OFTString \<and> u = Field_String (Some s) \<and> representable_int (leading_integer s)
            \<longrightarrow> returns_int (GetFieldAsInteger h p i) (leading_integer s)"
    by (simp add: eq and_then_def atoi_def returns_int_to_int)
  have 5: "t = OFTString \<and> u = Field_String (Some s) \<and> \<not> representable_int (leading_integer s)
            \<longrightarrow> GetFieldAsInteger h p i = Inl UndefinedConversion"
    by (simp add: eq and_then_def atoi_def to_int_def)
  have 6: "t = OFTString \<and> u = Field_String (Some s) \<and> non_numeric s
            \<longrightarrow> GetFieldAsInteger h p i = Inr 0"
    by (simp add: eq and_then_def atoi_non_numeric)
  have 7: "t = OFTString \<and> u = Field_String None \<longrightarrow> GetFieldAsInteger h p i = Inr 0"
    by (simp add: eq and_then_def)
  have 8: "u = Field_Zero \<longrightarrow> GetFieldAsInteger h p i = Inr 0"
    by (simp add: eq and_then_def double_to_int_def to_int_def representable_int_def
        trunc_toward_zero_def)
  have 9: "t \<notin> {OFTInteger, OFTReal, OFTString} \<longrightarrow> GetFieldAsInteger h p i = Inr 0"
    by (simp add: eq)
  from 1 2 3 4 5 6 7 8 9 show ?thesis by blast
qed

theorem GetFieldAsInteger_by_kind_witness:
  "GetFieldAsInteger sample_store 4 1 = Inr 5
   \<and> returns_int (GetFieldAsInteger sample_store 4 2) (- 2)
   \<and> returns_int (GetFieldAsInteger sample_store 4 0) 12
   \<and> GetFieldAsInteger sample_store 3 0 = Inr 0
   \<and> GetFieldAsInteger sample_store 4 3 = Inr 0"
proof -
  have t: "trunc_toward_zero (- (5 / 2)) = - 2" by (simp add: trunc_toward_zero_def)
  have l: "leading_integer ''12abc'' = 12" by (simp add: libc_defs)
  have r: "representable_int (- 2)" "representable_int 12" by (simp_all add: representable_int_def)
  have k: "declared_kind sample_store 4 1 = Some OFTInteger"
    "declared_kind sample_store 4 2 = Some OFTReal"
    "declared_kind sample_store 4 0 = Some OFTString"
    "declared_kind sample_store 3 0 = Some OFTString"
    "declared_kind sample_store 4 3 = Some (OFTOther 5)"
    by (simp_all add: sample_kinds)
  from GetFieldAsInteger_by_kind [OF k(1) sample_stored(2), of 5]
    GetFieldAsInteger_by_kind [OF k(2) sample_stored(3), of _ "- 5 / 2"]
    GetFieldAsInteger_by_kind [OF k(3) sample_stored(1), of _ _ "''12abc''"]
    GetFieldAsInteger_by_kind [OF k(4) sample_stored(5)]
    GetFieldAsInteger_by_kind [OF k(5) sample_stored(4)]
  show ?thesis by (simp add: t l r)
qed

text \<open>
  C6 as the claim words it asks for the truncated real whatever it is. With
  10000000000.0 in a Real field the truncation is 10000000000, which the call does not
  return: no \<open>int\<close> is that large.
\<close>

theorem GetFieldAsInteger_overflow_counterexample:
  "declared_kind overflowing_store 4 2 = Some OFTReal
   \<and> stored overflowing_store 4 2 = Some (Field_Real (Finite 10000000000))
   \<and> trunc_toward_zero 10000000000 = 10000000000
   \<and> \<not> returns_int (GetFieldAsInteger overflowing_store 4 2) 10000000000"
proof -
  have k: "declared_kind overflowing_store 4 2 = Some OFTReal"
    by (simp add: overflowing_store_def sample_kinds)
  have u: "stored overflowing_store 4 2 = Some (Field_Real (Finite 10000000000))"
    by (simp add: overflowing_store_def sample_stored)
  have t: "trunc_toward_zero 10000000000 = 10000000000"
    by (simp add: trunc_toward_zero_def)
  have "GetFieldAsInteger overflowing_store 4 2 = Inl UndefinedConversion"
    by (simp add: GetFieldAsInteger_eq [OF k u] and_then_def double_to_int_def t to_int_def
        representable_int_def)
  with k u t show ?thesis by (simp add: returns_int_def)
qed

subsection \<open>A new feature\<close>

lemma new_OGRFeature_result:
  assumes "new_OGRFeature h a = Inr (q, h1)"
  obtains d where "defns h a = Some d" and "q = fresh h"
    and "feats h1 q = Some \<lparr>poDefn = a, nFID = OGRNullFID, poGeometry = None,
            pauFields = replicate (length (papoFieldDefn d)) Field_Zero\<rparr>"
    and "defns h1 a = Some (Reference d)"
    and "geoms h1 = geoms h"
  using assms
  by (auto simp: new_OGRFeature_def GetFieldCount_def split: option.splits)

lemma new_OGRFeature_stored:
  assumes "new_OGRFeature h a = Inr (q, h1)" and "declared_kind h1 q j = Some t"
  shows "stored h1 q j = Some Field_Zero"
proof -
  from assms(1) obtain d where f: "feats h1 q = Some \<lparr>poDefn = a, nFID = OGRNullFID, poGeometry = None,
            pauFields = replicate (length (papoFieldDefn d)) Field_Zero\<rparr>"
    and d: "defns h1 a = Some (Reference d)"
    by (rule new_OGRFeature_result)
  from assms(2) f d have "0 \<le> j" and "nat j < length (papoFieldDefn d)"
    by (auto simp: declared_kind_def GetFieldDefn_def GetFieldCount_def Reference_def split: if_splits)
  with f show ?thesis by (simp add: stored_def)
qed

lemma new_OGRFeature_well_formed:
  assumes "new_OGRFeature h a = Inr (q, h1)"
  shows "well_formed h1 q"
proof -
  from assms obtain d where f: "feats h1 q = Some \<lparr>poDefn = a, nFID = OGRNullFID, poGeometry = None,
            pauFields = replicate (length (papoFieldDefn d)) Field_Zero\<rparr>"
    and d: "defns h1 a = Some (Reference d)"
    by (rule new_OGRFeature_result)
  have "list_all2 slot_matches (map eType xs) (replicate (length xs) Field_Zero)" for xs
    by (induction xs) (simp_all add: slot_matches_def)
  with f d show ?thesis by (simp add: well_formed_def Reference_def)
qed

subsection \<open>Reading an unset string\<close>

text \<open>
  C8. On a String field whose value is unset (the slot holds the null string, or still
  its zero bytes), and so on every String field of a feature that the constructor has
  just made, \<open>GetFieldAsString\<close> returns the empty string, not a null pointer.
\<close>

theorem GetFieldAsString_unset:
  "(declared_kind h p i = Some OFTString
      \<and> (stored h p i = Some Field_Zero \<or> stored h p i = Some (Field_String None))
     \<longrightarrow> GetFieldAsString E h p i = Inr (Some []))
   \<and> (new_OGRFeature h0 a = Inr (q, h1) \<and> declared_kind h1 q j = Some OFTString
     \<longrightarrow> GetFieldAsString E h1 q j = Inr (Some []))"
proof (intro conjI impI)
  assume "declared_kind h p i = Some OFTString
      \<and> (stored h p i = Some Field_Zero \<or> stored h p i = Some (Field_String None))"
  then show "GetFieldAsString E h p i = Inr (Some [])"
    by (auto simp: GetFieldAsString_eq [where t = OFTString] and_then_def)
next
  assume *: "new_OGRFeature h0 a = Inr (q, h1) \<and> declared_kind h1 q j = Some OFTString"
  then have "stored h1 q j = Some Field_Zero" by (blast intro: new_OGRFeature_stored)
  with * show "GetFieldAsString E h1 q j = Inr (Some [])"
    by (simp add: GetFieldAsString_eq [where t = OFTString] and_then_def)
qed

theorem GetFieldAsString_unset_witness:
  "GetFieldAsString sample_outside sample_store 3 0 = Inr (Some [])
   \<and> (case new_OGRFeature sample_store 1 of
         Inl e \<Rightarrow> False
       | Inr (q, h1) \<Rightarrow> GetFieldAsString sample_outside h1 q 0 = Inr (Some []))"
proof -
  have k: "declared_kind sample_store 3 0 = Some OFTString" by (simp add: sample_kinds)
  have 1: "GetFieldAsString sample_outside sample_store 3 0 = Inr (Some [])"
    using GetFieldAsString_unset [of sample_store 3 0 sample_outside] k sample_stored(5)
    by simp
  obtain h1 where n: "new_OGRFeature sample_store 1 = Inr (6, h1)"
    and k1: "declared_kind h1 6 0 = Some OFTString"
    by (simp add: new_OGRFeature_def sample_defs kind_defs Reference_def)
  have "GetFieldAsString sample_outside h1 6 0 = Inr (Some [])"
    using GetFieldAsString_unset [of _ _ _ sample_outside sample_store 1 6 h1 0] n k1 by simp
  with 1 n show ?thesis by simp
qed

subsection \<open>What SetField writes\<close>

lemma field_type_declared:
  assumes "feats h p = Some f" and "declared_kind h p i = Some t"
  shows "field_type h f i = Inr t"
  using assms
  by (auto simp: declared_kind_def field_type_def feature_defn_def and_then_def
      split: option.splits)

lemma set_slot_result:
  assumes "set_slot h p f i v = Inr h'" and "feats h p = Some f"
  shows "h' = with_slot h p i v"
  using assms by (auto simp: set_slot_def with_slot_def split: if_splits)

lemma and_then_Inr:
  "and_then m k = Inr y \<longleftrightarrow> (\<exists>x. m = Inr x \<and> k x = Inr y)"
  by (cases m) (simp_all add: and_then_def)

lemma slot_written_refl [simp]: "slot_written h p i t h"
  by (simp add: slot_written_def)

lemma slot_written_set_slot:
  "feats h p = Some f \<Longrightarrow> set_slot h p f i v = Inr h' \<Longrightarrow> slot_matches t v
     \<Longrightarrow> slot_written h p i t h'"
  by (auto simp: slot_written_def dest: set_slot_result)

lemma slot_matches_simps [simp]:
  "slot_matches t Field_Zero" "slot_matches OFTInteger (Field_Integer n)"
  "slot_matches OFTReal (Field_Real x)" "slot_matches OFTString (Field_String s)"
  by (simp_all add: slot_matches_def)

lemma SetField_written:
  assumes "feats h p = Some f" and "declared_kind h p i = Some t"
    and "SetField_int E h p i n = Inr h' \<or> SetField_double E h p i x = Inr h'
            \<or> SetField_string E h p i s = Inr h' \<or> SetField_raw E h p i u = Inr h'"
  shows "slot_written h p i t h'"
proof -
  note ft = field_type_declared [OF assms(1,2)]
  from assms(3) consider
    (int) "SetField_int E h p i n = Inr h'" | (double) "SetField_double E h p i x = Inr h'"
    | (string) "SetField_string E h p i s = Inr h'" | (raw) "SetField_raw E h p i u = Inr h'"
    by blast
  then show ?thesis
  proof cases
    case int
    with assms(1) ft show ?thesis
      by (auto simp: SetField_int_def and_then_Inr this_feature_def split: if_splits
          intro: slot_written_set_slot)
  next
    case double
    with assms(1) ft show ?thesis
      by (auto simp: SetField_double_def and_then_Inr this_feature_def split: if_splits
          intro: slot_written_set_slot)
  next
    case string
    with assms(1) ft show ?thesis
      by (auto simp: SetField_string_def and_then_Inr this_feature_def
          split: if_splits option.splits intro: slot_written_set_slot)
  next
    case raw
    with assms(1) ft show ?thesis
      by (auto simp: SetField_raw_def and_then_Inr this_feature_def
          split: if_splits option.splits intro: slot_written_set_slot)
  qed
qed

lemma slot_written_frame:
  assumes "slot_written h p i t h'" and "feats h p = Some f"
  shows "(\<exists>f'. feats h' p = Some f' \<and> poDefn f' = poDefn f \<and> nFID f' = nFID f
            \<and> poGeometry f' = poGeometry f
            \<and> length (pauFields f') = length (pauFields f)
            \<and> (\<forall>j. j \<noteq> nat i \<longrightarrow> pauFields f' ! j = pauFields f ! j))
       \<and> (\<forall>q. q \<noteq> p \<longrightarrow> feats h' q = feats h q)
       \<and> defns h' = defns h \<and> geoms h' = geoms h \<and> fresh h' = fresh h"
  using assms by (auto simp: slot_written_def with_slot_def)

text \<open>
  C10. A \<open>SetField\<close> that returns, whichever of the four it is, has replaced at most the
  slot at its index: the feature keeps its definition pointer, its feature id, its
  geometry pointer, the length of its field array and every other slot, and the rest
  of the store is as it was. On a field of a kind other than Integer, Real and String
  each of the four returns with the store unchanged.
\<close>

theorem SetField_frame:
  assumes "feats h p = Some f" and "declared_kind h p i = Some t"
  shows "(SetField_int E h p i n = Inr h' \<or> SetField_double E h p i x = Inr h'
            \<or> SetField_string E h p i s = Inr h' \<or> SetField_raw E h p i u = Inr h'
          \<longrightarrow> (\<exists>f'. feats h' p = Some f' \<and> poDefn f' = poDefn f \<and> nFID f' = nFID f
                  \<and> poGeometry f' = poGeometry f
                  \<and> length (pauFields f') = length (pauFields f)
                  \<and> (\<forall>j. j \<noteq> nat i \<longrightarrow> pauFields f' ! j = pauFields f ! j))
              \<and> (\<forall>q. q \<noteq> p \<longrightarrow> feats h' q = feats h q)
              \<and> defns h' = defns h \<and> geoms h' = geoms h \<and> fresh h' = fresh h)
       \<and> (t \<notin> {OFTInteger, OFTReal, OFTString}
          \<longrightarrow> SetField_int E h p i n = Inr h \<and> SetField_double E h p i x = Inr h
              \<and> SetField_string E h p i s = Inr h \<and> SetField_raw E h p i u = Inr h)"
proof (rule conjI)
  show "SetField_int E h p i n = Inr h' \<or> SetField_double E h p i x = Inr h'
            \<or> SetField_string E h p i s = Inr h' \<or> SetField_raw E h p i u = Inr h'
          \<longrightarrow> (\<exists>f'. feats h' p = Some f' \<and> poDefn f' = poDefn f \<and> nFID f' = nFID f
                  \<and> poGeometry f' = poGeometry f
                  \<and> length (pauFields f') = length (pauFields f)
                  \<and> (\<forall>j. j \<noteq> nat i \<longrightarrow> pauFields f' ! j = pauFields f ! j))
              \<and> (\<forall>q. q \<noteq> p \<longrightarrow> feats h' q = feats h q)
              \<and> defns h' = defns h \<and> geoms h' = geoms h \<and> fresh h' = fresh h"
  proof (rule impI)
    assume "SetField_int E h p i n = Inr h' \<or> SetField_double E h p i x = Inr h'
            \<or> SetField_string E h p i s = Inr h' \<or> SetField_raw E h p i u = Inr h'"
    with assms have "slot_written h p i t h'" by (rule SetField_written)
    then show "(\<exists>f'. feats h' p = Some f' \<and> poDefn f' = poDefn f \<and> nFID f' = nFID f
                  \<and> poGeometry f' = poGeometry f
                  \<and> length (pauFields f') = length (pauFields f)
                  \<and> (\<forall>j. j \<noteq> nat i \<longrightarrow> pauFields f' ! j = pauFields f ! j))
              \<and> (\<forall>q. q \<noteq> p \<longrightarrow> feats h' q = feats h q)
              \<and> defns h' = defns h \<and> geoms h' = geoms h \<and> fresh h' = fresh h"
      using assms(1) by (rule slot_written_frame)
  qed
next
  show "t \<notin> {OFTInteger, OFTReal, OFTString}
          \<longrightarrow> SetField_int E h p i n = Inr h \<and> SetField_double E h p i x = Inr h
              \<and> SetField_string E h p i s = Inr h \<and> SetField_raw E h p i u = Inr h"
    using field_type_declared [OF assms] assms(1)
    by (simp add: SetField_int_def SetField_double_def SetField_string_def SetField_raw_def
        and_then_def this_feature_def)
qed

theorem SetField_frame_witness:
  "(case SetField_int sample_outside sample_store 2 1 99 of
      Inl e \<Rightarrow> False
    | Inr h' \<Rightarrow>
        stored h' 2 1 = Some (Field_Integer 99)
        \<and> map_option nFID (feats h' 2) = Some 100
        \<and> map_option poGeometry (feats h' 2) = Some None
        \<and> map_option poDefn (feats h' 2) = Some 1
        \<and> stored h' 2 0 = stored sample_store 2 0
        \<and> stored h' 2 2 = stored sample_store 2 2
        \<and> feats h' 3 = feats sample_store 3)
   \<and> SetField_int sample_outside sample_store 2 3 99 = Inr sample_store
   \<and> SetField_string sample_outside sample_store 2 3 (Some ''x'') = Inr sample_store"
proof -
  have f: "feats sample_store 2 = Some sample_f1" by (simp add: sample_defs)
  have k: "declared_kind sample_store 2 1 = Some OFTInteger"
    "declared_kind sample_store 2 3 = Some (OFTOther 5)"
    by (simp_all add: sample_kinds)
  have u: "stored sample_store 2 1 = Some (Field_Integer 5)" by (simp add: stored_def sample_defs)
  have r: "SetField_int sample_outside sample_store 2 1 99
             = Inr (with_slot sample_store 2 1 (Field_Integer 99))"
    by (simp add: SetField_int_eq [OF k(1) u])
  from SetField_frame [OF f k(1), where E = sample_outside and n = 99
      and h' = "with_slot sample_store 2 1 (Field_Integer 99)"] r
  obtain f' where f': "feats (with_slot sample_store 2 1 (Field_Integer 99)) 2 = Some f'"
    "poDefn f' = 1" "nFID f' = 100" "poGeometry f' = None"
    "length (pauFields f') = 4"
    "\<forall>j. j \<noteq> 1 \<longrightarrow> pauFields f' ! j = pauFields sample_f1 ! j"
    and o: "feats (with_slot sample_store 2 1 (Field_Integer 99)) 3 = feats sample_store 3"
    by (auto simp: sample_f1_def)
  from f'(6) have "pauFields f' ! 0 = pauFields sample_f1 ! 0" "pauFields f' ! 2 = pauFields sample_f1 ! 2"
    by simp_all
  with f' f have s: "stored (with_slot sample_store 2 1 (Field_Integer 99)) 2 0 = stored sample_store 2 0"
    "stored (with_slot sample_store 2 1 (Field_Integer 99)) 2 2 = stored sample_store 2 2"
    by (simp_all add: stored_def sample_f1_def)
  from SetField_frame [OF f k(2), where E = sample_outside and n = 99 and s = "Some ''x''"]
  have n: "SetField_int sample_outside sample_store 2 3 99 = Inr sample_store"
    "SetField_string sample_outside sample_store 2 3 (Some ''x'') = Inr sample_store"
    by simp_all
  from r f' o s n u show ?thesis by simp
qed

subsection \<open>The invariant of the field array\<close>

text \<open>
  The constructor establishes the invariant (\<open>new_OGRFeature_well_formed\<close> above) and
  every \<open>SetField\<close> that returns keeps it, for every feature of the store.
\<close>

lemma slot_matches_update:
  assumes "list_all2 slot_matches ts xs" and "k < length ts" and "slot_matches (ts ! k) v"
  shows "list_all2 slot_matches ts (xs[k := v])"
proof -
  from assms(1,3) have "list_all2 slot_matches (ts[k := ts ! k]) (xs[k := v])"
    by (rule list_all2_update_cong)
  then show ?thesis by simp
qed

lemma with_slot_well_formed:
  assumes "well_formed h q" and "declared_kind h p i = Some t" and "slot_matches t v"
  shows "well_formed (with_slot h p i v) q"
proof (cases "q = p")
  case False
  with assms(1) show ?thesis
    by (auto simp: well_formed_def with_slot_def split: option.splits)
next
  case True
  from assms(1) True obtain f d where f: "feats h p = Some f" and d: "defns h (poDefn f) = Some d"
    and all: "list_all2 slot_matches (map eType (papoFieldDefn d)) (pauFields f)"
    by (auto simp: well_formed_def split: option.splits)
  from assms(2) f d have i: "nat i < length (map eType (papoFieldDefn d))"
    and t: "map eType (papoFieldDefn d) ! nat i = t"
    by (auto simp: declared_kind_def GetFieldDefn_def GetFieldCount_def GetType_def split: if_splits)
  from all i assms(3) t
  have "list_all2 slot_matches (map eType (papoFieldDefn d)) ((pauFields f)[nat i := v])"
    by (intro slot_matches_update) simp_all
  with f d True show ?thesis by (simp add: well_formed_def with_slot_def)
qed

lemma SetField_preserves_well_formed:
  assumes "feats h p = Some f" and "declared_kind h p i = Some t"
    and "SetField_int E h p i n = Inr h' \<or> SetField_double E h p i x = Inr h'
            \<or> SetField_string E h p i s = Inr h' \<or> SetField_raw E h p i u = Inr h'"
    and "well_formed h q"
  shows "well_formed h' q"
proof -
  from assms(1-3) have "slot_written h p i t h'" by (rule SetField_written)
  with assms(2,4) show ?thesis
    by (auto simp: slot_written_def intro: with_slot_well_formed)
qed

subsection \<open>Clone\<close>

text \<open>
  C9. \<open>Clone\<close> hands the geometry pointer of this feature to \<open>SetGeometry\<close> of the new
  one, which calls \<open>clone()\<close> through it. For a feature without a geometry the pointer
  is null: the constructor succeeds, the copy of the geometry dereferences the null
  pointer, and no clone is made.
\<close>

theorem Clone_without_geometry:
  assumes "feats h p = Some f" and "defns h (poDefn f) = Some d" and "poGeometry f = None"
  shows "(\<exists>poNew h1. new_OGRFeature h (poDefn f) = Inr (poNew, h1)
            \<and> SetGeometry E h1 poNew (poGeometry f) = Inl NullDereference)
       \<and> Clone E h p = Inl NullDereference"
  using assms
  by (simp add: Clone_def and_then_def this_feature_def new_OGRFeature_def SetGeometry_def
      delete_geometry_def OGRGeometry_clone_def)

theorem Clone_without_geometry_witness:
  "Clone sample_outside sample_store 3 = Inl NullDereference"
  by (rule Clone_without_geometry [where f = sample_f2 and d = sample_defn, THEN conjunct2])
     (simp_all add: sample_defs)

lemma scenario_f1_built:
  "scenario_f1 =
     Inr (2, \<lparr>defns = [1 \<mapsto> scenario_defn\<lparr>nRefCount := 1\<rparr>], geoms = Map.empty,
              feats = [2 \<mapsto> \<lparr>poDefn = 1, nFID = 100, poGeometry = None,
                 pauFields = [Field_String (Some ''Lot A''), Field_Integer 5,
                              Field_Real (Finite (25 / 2))]\<rparr>],
              fresh = 3\<rparr>)"
  by (simp add: scenario_f1_def scenario_start_def scenario_defn_def sample_outside_def
      new_OGRFeature_def SetField_string_def SetField_int_def SetField_double_def SetFID_def
      and_then_def this_feature_def feature_defn_def field_type_def field_slot_def set_slot_def
      GetFieldDefn_def GetFieldCount_def GetType_def Reference_def OGRNullFID_def CPLStrdup_def
      member_String_def numeral_3_eq_3)

text \<open>
  C1. \<open>Clone\<close> is to give, for every feature, a new feature bound to the same
  definition, with the field values and a copy of the geometry of this one and the null
  feature id. The feature \<open>f1\<close> of the scenario has no geometry set: it is built as the
  scenario says and reads back as it was set, and cloning it gives no feature but the
  dereference of a null pointer.
\<close>

theorem Clone_of_scenario_feature:
  "(case scenario_f1 of
      Inl e \<Rightarrow> False
    | Inr (f1, h) \<Rightarrow>
        GetFieldAsString sample_outside h f1 0 = Inr (Some ''Lot A'')
        \<and> GetFieldAsInteger h f1 1 = Inr 5
        \<and> GetFieldAsDouble sample_outside h f1 2 = Inr (Finite (25 / 2))
        \<and> map_option GetFID (feats h f1) = Some 100
        \<and> map_option GetGeometryRef (feats h f1) = Some None
        \<and> Clone sample_outside h f1 = Inl NullDereference)"
  by (simp add: scenario_f1_built scenario_defn_def
      GetFieldAsString_def GetFieldAsInteger_def GetFieldAsDouble_def Clone_def
      new_OGRFeature_def SetGeometry_def delete_geometry_def OGRGeometry_clone_def
      and_then_def this_feature_def feature_defn_def field_type_def field_slot_def
      GetFieldDefn_def GetFieldCount_def GetType_def GetFID_def GetGeometryRef_def)

text \<open>
  For a feature with a geometry \<open>Clone\<close> does what its documentation says. The loop
  over the fields leaves in slot \<open>i\<close> of the new feature the copy of slot \<open>i\<close> of this
  one.
\<close>

lemma store_feats_same:
  "feats h q = Some fq \<Longrightarrow> h\<lparr>feats := (feats h)(q \<mapsto> fq)\<rparr> = h"
  by (simp add: map_upd_triv)

lemma SetField_raw_copy:
  assumes fq: "feats h q = Some fq" and d: "defns h (poDefn fq) = Some d"
    and k: "k < length (papoFieldDefn d)" and len: "length (pauFields fq) = length (papoFieldDefn d)"
    and z: "pauFields fq ! k = Field_Zero"
    and m: "slot_matches (eType (papoFieldDefn d ! k)) u"
    and s0: "CPLStrdup_NULL E = Inr s0"
  shows "SetField_raw E h q (int k) (Some u) =
           Inr (h\<lparr>feats := (feats h)(q \<mapsto>
                  fq\<lparr>pauFields := (pauFields fq)[k := copied s0 (eType (papoFieldDefn d ! k)) u]\<rparr>)\<rparr>)"
proof -
  have ft: "field_type h fq (int k) = Inr (eType (papoFieldDefn d ! k))"
    using d k by (simp add: field_type_def feature_defn_def and_then_def GetFieldDefn_def
        GetFieldCount_def GetType_def)
  have sl: "field_slot fq (int k) = Inr Field_Zero"
    using k len z by (simp add: field_slot_def)
  have st: "set_slot h q fq (int k) v =
      Inr (h\<lparr>feats := (feats h)(q \<mapsto> fq\<lparr>pauFields := (pauFields fq)[k := v]\<rparr>)\<rparr>)" for v
    using k len by (simp add: set_slot_def)
  show ?thesis
  proof (cases "eType (papoFieldDefn d ! k)")
    case OFTInteger
    with m show ?thesis
      by (cases u) (simp_all add: SetField_raw_def and_then_def this_feature_def fq ft st
          slot_matches_def)
  next
    case OFTReal
    with m show ?thesis
      by (cases u) (simp_all add: SetField_raw_def and_then_def this_feature_def fq ft st
          slot_matches_def)
  next
    case OFTString
    with m s0 show ?thesis
      by (cases u; cases "case u of Field_String s \<Rightarrow> s | _ \<Rightarrow> None")
         (simp_all add: SetField_raw_def and_then_def this_feature_def fq ft st sl
          slot_matches_def CPLStrdup_def)
  next
    case (OFTOther x)
    have "(pauFields fq)[k := Field_Zero] = pauFields fq"
      using z by (metis list_update_id)
    with OFTOther fq show ?thesis
      by (simp add: SetField_raw_def and_then_def this_feature_def ft store_feats_same)
  qed
qed

lemma Clone_fields_copy:
  assumes "p \<noteq> q" and "feats h p = Some f" and "CPLStrdup_NULL E = Inr s0"
    and "defns h (poDefn fq) = Some d"
    and "list_all2 slot_matches (map eType (papoFieldDefn d)) (pauFields f)"
    and "feats h q = Some fq" and "length (pauFields fq) = length (papoFieldDefn d)"
    and "\<forall>i\<in>set is. i < length (papoFieldDefn d) \<and> pauFields fq ! i = Field_Zero"
    and "distinct is"
  shows "Clone_fields E p q is h =
           Inr (h\<lparr>feats := (feats h)(q \<mapsto> fq\<lparr>pauFields :=
                  fold (\<lambda>i xs. xs[i := copied s0 (eType (papoFieldDefn d ! i)) (pauFields f ! i)])
                    is (pauFields fq)\<rparr>)\<rparr>)"
  using assms
proof (induction "is" arbitrary: h fq)
  case Nil
  have "fq\<lparr>pauFields := pauFields fq\<rparr> = fq" by simp
  then show ?case
    by (simp only: Clone_fields.simps fold_simps id_apply store_feats_same [OF Nil.prems(6)])
next
  case (Cons i "is")
  let ?c = "copied s0 (eType (papoFieldDefn d ! i)) (pauFields f ! i)"
  let ?fq1 = "fq\<lparr>pauFields := (pauFields fq)[i := ?c]\<rparr>"
  let ?h1 = "h\<lparr>feats := (feats h)(q \<mapsto> ?fq1)\<rparr>"
  from Cons.prems have i: "i < length (papoFieldDefn d)" and z: "pauFields fq ! i = Field_Zero"
    by simp_all
  from Cons.prems(5) have len: "length (pauFields f) = length (papoFieldDefn d)"
    by (simp add: list_all2_lengthD [symmetric])
  from Cons.prems(5) i have m: "slot_matches (eType (papoFieldDefn d ! i)) (pauFields f ! i)"
    using list_all2_nthD [of slot_matches "map eType (papoFieldDefn d)" "pauFields f" i] by simp
  have sl: "field_slot f (int i) = Inr (pauFields f ! i)"
    using i len by (simp add: field_slot_def)
  have raw: "SetField_raw E h q (int i) (Some (pauFields f ! i)) = Inr ?h1"
    using Cons.prems(6,4) i Cons.prems(7) z m Cons.prems(3) by (rule SetField_raw_copy)
  have ih: "Clone_fields E p q is ?h1 =
           Inr (?h1\<lparr>feats := (feats ?h1)(q \<mapsto> ?fq1\<lparr>pauFields :=
                  fold (\<lambda>i xs. xs[i := copied s0 (eType (papoFieldDefn d ! i)) (pauFields f ! i)])
                    is (pauFields ?fq1)\<rparr>)\<rparr>)"
  proof (rule Cons.IH)
    show "p \<noteq> q" by fact
    show "feats ?h1 p = Some f" using Cons.prems(1,2) by simp
    show "CPLStrdup_NULL E = Inr s0" by fact
    show "defns ?h1 (poDefn ?fq1) = Some d" using Cons.prems(4) by simp
    show "list_all2 slot_matches (map eType (papoFieldDefn d)) (pauFields f)" by fact
    show "feats ?h1 q = Some ?fq1" by simp
    show "length (pauFields ?fq1) = length (papoFieldDefn d)" using Cons.prems(7) by simp
    show "\<forall>j\<in>set is. j < length (papoFieldDefn d) \<and> pauFields ?fq1 ! j = Field_Zero"
    proof
      fix j assume j: "j \<in> set is"
      with Cons.prems(9) have "j \<noteq> i" by auto
      with j Cons.prems(8) show "j < length (papoFieldDefn d) \<and> pauFields ?fq1 ! j = Field_Zero"
        by simp
    qed
    show "distinct is" using Cons.prems(9) by simp
  qed
  have step: "Clone_fields E p q (i # is) h = Clone_fields E p q is ?h1"
    using raw sl Cons.prems(2) by (simp add: and_then_def this_feature_def)
  have fin: "?h1\<lparr>feats := (feats ?h1)(q \<mapsto> ?fq1\<lparr>pauFields :=
                  fold (\<lambda>i xs. xs[i := copied s0 (eType (papoFieldDefn d ! i)) (pauFields f ! i)])
                    is (pauFields ?fq1)\<rparr>)\<rparr>
             = h\<lparr>feats := (feats h)(q \<mapsto> fq\<lparr>pauFields :=
                  fold (\<lambda>i xs. xs[i := copied s0 (eType (papoFieldDefn d ! i)) (pauFields f ! i)])
                    (i # is) (pauFields fq)\<rparr>)\<rparr>"
    by simp
  from step ih fin show ?case by (simp only:)
qed

lemma fold_update_upt:
  assumes "n \<le> length xs"
  shows "fold (\<lambda>i ys. ys[i := g i]) [0..<n] xs = map g [0..<n] @ drop n xs"
  using assms
proof (induction n)
  case 0
  then show ?case by simp
next
  case (Suc n)
  then have "fold (\<lambda>i ys. ys[i := g i]) [0..<Suc n] xs = (map g [0..<n] @ drop n xs)[n := g n]"
    by simp
  also have "\<dots> = map g [0..<n] @ (drop n xs)[0 := g n]"
    by (simp add: list_update_append)
  also from Suc.prems have "drop n xs = xs ! n # drop (Suc n) xs"
    by (simp add: Cons_nth_drop_Suc)
  finally show ?case by simp
qed

lemma Clone_result:
  assumes f: "feats h p = Some f" and wf: "well_formed h p"
    and g: "poGeometry f = Some g" and v: "geoms h g = Some v"
    and free: "free_from_fresh h"
    and s0: "CPLStrdup_NULL E = Inr s0"
  obtains d where "defns h (poDefn f) = Some d"
    and "list_all2 slot_matches (map eType (papoFieldDefn d)) (pauFields f)"
    and "Clone E h p =
      Inr (fresh h,
           \<lparr>defns = (defns h)(poDefn f \<mapsto> Reference d),
            geoms = (geoms h)(Suc (fresh h) \<mapsto> geometry_clone E v),
            feats = (feats h)(fresh h \<mapsto>
              \<lparr>poDefn = poDefn f, nFID = OGRNullFID, poGeometry = Some (Suc (fresh h)),
               pauFields = map (\<lambda>i. copied s0 (eType (papoFieldDefn d ! i)) (pauFields f ! i))
                             [0..<length (papoFieldDefn d)]\<rparr>),
            fresh = Suc (Suc (fresh h))\<rparr>)"
proof -
  from wf f obtain d where d: "defns h (poDefn f) = Some d"
    and all: "list_all2 slot_matches (map eType (papoFieldDefn d)) (pauFields f)"
    by (auto simp: well_formed_def split: option.splits)
  define q where "q = fresh h"
  define n where "n = length (papoFieldDefn d)"
  define new where "new = \<lparr>poDefn = poDefn f, nFID = OGRNullFID, poGeometry = None,
               pauFields = replicate n Field_Zero\<rparr>"
  define h1 where "h1 = h\<lparr>defns := (defns h)(poDefn f \<mapsto> Reference d),
                 feats := (feats h)(q \<mapsto> new), fresh := Suc q\<rparr>"
  define h2 where "h2 = h1\<lparr>geoms := (geoms h1)(Suc q \<mapsto> geometry_clone E v), fresh := Suc (Suc q),
                 feats := (feats h1)(q \<mapsto> new\<lparr>poGeometry := Some (Suc q)\<rparr>)\<rparr>"
  define ys where "ys = map (\<lambda>i. copied s0 (eType (papoFieldDefn d ! i)) (pauFields f ! i)) [0..<n]"
  define h3 where "h3 = h2\<lparr>feats := (feats h2)(q \<mapsto> new\<lparr>poGeometry := Some (Suc q), pauFields := ys\<rparr>)\<rparr>"
  from free f have pq: "p \<noteq> q" by (auto simp: free_from_fresh_def q_def)
  have c1: "new_OGRFeature h (poDefn f) = Inr (q, h1)"
    using d by (simp add: new_OGRFeature_def GetFieldCount_def h1_def new_def q_def n_def)
  have "feats h1 q = Some new" "geoms h1 g = Some v" "fresh h1 = Suc q" "poGeometry new = None"
    using v by (simp_all add: h1_def new_def)
  then have c2: "SetGeometry E h1 q (Some g) = Inr (OGRERR_NONE, h2)"
    by (simp add: SetGeometry_def and_then_def this_feature_def delete_geometry_def
        OGRGeometry_clone_def h2_def)
  have d2: "defns h2 (poDefn f) = Some (Reference d)"
    by (simp add: h2_def h1_def)
  then have c3: "feature_defn h2 f = Inr (Reference d)"
    by (simp add: feature_defn_def)
  have cnt: "nat (GetFieldCount (Reference d)) = n"
    by (simp add: GetFieldCount_def Reference_def n_def)
  have c4: "Clone_fields E p q [0..<n] h2 =
           Inr (h2\<lparr>feats := (feats h2)(q \<mapsto> new\<lparr>poGeometry := Some (Suc q)\<rparr>\<lparr>pauFields :=
                  fold (\<lambda>i xs. xs[i := copied s0 (eType (papoFieldDefn (Reference d) ! i)) (pauFields f ! i)])
                    [0..<n] (pauFields (new\<lparr>poGeometry := Some (Suc q)\<rparr>))\<rparr>)\<rparr>)"
  proof (rule Clone_fields_copy)
    show "p \<noteq> q" by fact
    show "feats h2 p = Some f" using f pq by (simp add: h2_def h1_def)
    show "CPLStrdup_NULL E = Inr s0" by fact
    show "defns h2 (poDefn (new\<lparr>poGeometry := Some (Suc q)\<rparr>)) = Some (Reference d)"
      using d2 by (simp add: new_def)
    show "list_all2 slot_matches (map eType (papoFieldDefn (Reference d))) (pauFields f)"
      using all by (simp add: Reference_def)
    show "feats h2 q = Some (new\<lparr>poGeometry := Some (Suc q)\<rparr>)" by (simp add: h2_def)
    show "length (pauFields (new\<lparr>poGeometry := Some (Suc q)\<rparr>)) = length (papoFieldDefn (Reference d))"
      by (simp add: Reference_def new_def n_def)
    show "\<forall>i\<in>set [0..<n]. i < length (papoFieldDefn (Reference d))
            \<and> pauFields (new\<lparr>poGeometry := Some (Suc q)\<rparr>) ! i = Field_Zero"
      by (simp add: Reference_def new_def n_def)
    show "distinct [0..<n]" by simp
  qed
  have c5: "fold (\<lambda>i xs. xs[i := copied s0 (eType (papoFieldDefn (Reference d) ! i)) (pauFields f ! i)])
              [0..<n] (pauFields (new\<lparr>poGeometry := Some (Suc q)\<rparr>)) = ys"
    by (simp add: fold_update_upt Reference_def new_def ys_def)
  from c4 have c6: "Clone_fields E p q [0..<n] h2 = Inr h3"
    by (simp only: c5 h3_def)
  have "Clone E h p = Inr (q, h3)"
    unfolding Clone_def
    by (simp add: and_then_def this_feature_def f g c1 c2 c3 c6 cnt)
  moreover have "h3 = \<lparr>defns = (defns h)(poDefn f \<mapsto> Reference d),
            geoms = (geoms h)(Suc (fresh h) \<mapsto> geometry_clone E v),
            feats = (feats h)(fresh h \<mapsto>
              \<lparr>poDefn = poDefn f, nFID = OGRNullFID, poGeometry = Some (Suc (fresh h)),
               pauFields = map (\<lambda>i. copied s0 (eType (papoFieldDefn d ! i)) (pauFields f ! i))
                             [0..<length (papoFieldDefn d)]\<rparr>),
            fresh = Suc (Suc (fresh h))\<rparr>"
    by (simp add: h3_def h2_def h1_def new_def ys_def q_def n_def)
  ultimately have "Clone E h p =
      Inr (fresh h,
           \<lparr>defns = (defns h)(poDefn f \<mapsto> Reference d),
            geoms = (geoms h)(Suc (fresh h) \<mapsto> geometry_clone E v),
            feats = (feats h)(fresh h \<mapsto>
              \<lparr>poDefn = poDefn f, nFID = OGRNullFID, poGeometry = Some (Suc (fresh h)),
               pauFields = map (\<lambda>i. copied s0 (eType (papoFieldDefn d ! i)) (pauFields f ! i))
                             [0..<length (papoFieldDefn d)]\<rparr>),
            fresh = Suc (Suc (fresh h))\<rparr>)"
    by (simp only: q_def)
  with d all show thesis by (rule that)
qed

text \<open>
  So, for a well-formed feature with a live geometry, in a store whose free addresses
  are free, and with a \<open>CPLStrdup\<close> that makes a null pointer or an empty string of a
  null pointer: the clone is a new feature, bound to the same definition object, with
  the null feature id, with a geometry object of its own that holds the clone of this
  feature's geometry, and every field reads the same through the three getters; this
  feature and its geometry are as they were.
\<close>

lemma copied_reads:
  assumes "slot_matches t u" and "s0 = None \<or> s0 = Some []"
  shows "member_Integer (copied s0 OFTInteger u) = member_Integer u \<or> t \<noteq> OFTInteger"
    and "member_Real (copied s0 OFTReal u) = member_Real u \<or> t \<noteq> OFTReal"
    and "t = OFTString \<longrightarrow> (\<exists>a b. member_String (copied s0 OFTString u) = Inr a \<and> member_String u = Inr b
           \<and> (a = b \<or> (a = Some [] \<and> b = None)))"
  using assms
  by (cases u; cases "case u of Field_String s \<Rightarrow> s | _ \<Rightarrow> None"; auto simp: slot_matches_def)+

lemma Clone_with_geometry:
  assumes f: "feats h p = Some f" and wf: "well_formed h p"
    and g: "poGeometry f = Some g" and v: "geoms h g = Some v"
    and free: "free_from_fresh h"
    and s0: "CPLStrdup_NULL E = Inr s0" and empty: "s0 = None \<or> s0 = Some []"
  shows "\<exists>q h' f' g'. Clone E h p = Inr (q, h') \<and> q \<noteq> p
      \<and> feats h' p = Some f
      \<and> feats h' q = Some f' \<and> poDefn f' = poDefn f \<and> nFID f' = OGRNullFID
      \<and> poGeometry f' = Some g' \<and> g' \<noteq> g
      \<and> geoms h' g' = Some (geometry_clone E v) \<and> geoms h' g = Some v
      \<and> (\<forall>i. declared_kind h p i \<noteq> None \<longrightarrow>
            GetFieldAsInteger h' q i = GetFieldAsInteger h p i
          \<and> GetFieldAsDouble E h' q i = GetFieldAsDouble E h p i
          \<and> GetFieldAsString E h' q i = GetFieldAsString E h p i)"
proof -
  from f wf g v free s0 obtain d where d: "defns h (poDefn f) = Some d"
    and all: "list_all2 slot_matches (map eType (papoFieldDefn d)) (pauFields f)"
    and c: "Clone E h p =
      Inr (fresh h,
           \<lparr>defns = (defns h)(poDefn f \<mapsto> Reference d),
            geoms = (geoms h)(Suc (fresh h) \<mapsto> geometry_clone E v),
            feats = (feats h)(fresh h \<mapsto>
              \<lparr>poDefn = poDefn f, nFID = OGRNullFID, poGeometry = Some (Suc (fresh h)),
               pauFields = map (\<lambda>i. copied s0 (eType (papoFieldDefn d ! i)) (pauFields f ! i))
                             [0..<length (papoFieldDefn d)]\<rparr>),
            fresh = Suc (Suc (fresh h))\<rparr>)"
    by (rule Clone_result)
  define q where "q = fresh h"
  define f' where "f' = \<lparr>poDefn = poDefn f, nFID = OGRNullFID, poGeometry = Some (Suc (fresh h)),
               pauFields = map (\<lambda>i. copied s0 (eType (papoFieldDefn d ! i)) (pauFields f ! i))
                             [0..<length (papoFieldDefn d)]\<rparr>"
  define h' where "h' = \<lparr>defns = (defns h)(poDefn f \<mapsto> Reference d),
            geoms = (geoms h)(Suc (fresh h) \<mapsto> geometry_clone E v),
            feats = (feats h)(fresh h \<mapsto> f'),
            fresh = Suc (Suc (fresh h))\<rparr>"
  from c have clone: "Clone E h p = Inr (q, h')" by (simp add: q_def h'_def f'_def)
  from free f have pq: "q \<noteq> p" by (auto simp: free_from_fresh_def q_def)
  from free v have gg: "Suc (fresh h) \<noteq> g" by (auto simp: free_from_fresh_def)
  have fp: "feats h' p = Some f" using f pq by (simp add: h'_def q_def)
  have fq: "feats h' q = Some f'" by (simp add: h'_def q_def)
  have dq: "defns h' (poDefn f') = Some (Reference d)" by (simp add: h'_def f'_def)
  have g1: "geoms h' (Suc (fresh h)) = Some (geometry_clone E v)" by (simp add: h'_def)
  have g2: "geoms h' g = Some v" using v gg by (simp add: h'_def)
  from all have len: "length (pauFields f) = length (papoFieldDefn d)"
    by (simp add: list_all2_lengthD [symmetric])
  have fields: "GetFieldAsInteger h' q i = GetFieldAsInteger h p i
          \<and> GetFieldAsDouble E h' q i = GetFieldAsDouble E h p i
          \<and> GetFieldAsString E h' q i = GetFieldAsString E h p i"
    if "declared_kind h p i \<noteq> None" for i
  proof -
    from that obtain t where t: "declared_kind h p i = Some t" by blast
    with f d have i: "0 \<le> i" "nat i < length (papoFieldDefn d)"
      and ti: "eType (papoFieldDefn d ! nat i) = t"
      by (auto simp: kind_defs split: if_splits)
    define u where "u = pauFields f ! nat i"
    from all i ti have m: "slot_matches t u"
      using list_all2_nthD [of slot_matches "map eType (papoFieldDefn d)" "pauFields f" "nat i"]
      by (simp add: u_def)
    have su: "stored h p i = Some u" using f i len by (simp add: stored_def u_def)
    have t': "declared_kind h' q i = Some t"
      using fq dq i ti by (simp add: kind_defs Reference_def)
    have su': "stored h' q i = Some (copied s0 t u)"
      using fq i ti by (simp add: stored_def f'_def u_def)
    note eqs = GetFieldAsInteger_eq [OF t su] GetFieldAsInteger_eq [OF t' su']
      GetFieldAsDouble_eq [OF t su] GetFieldAsDouble_eq [OF t' su']
      GetFieldAsString_eq [OF t su] GetFieldAsString_eq [OF t' su']
    show ?thesis
    proof (cases t)
      case OFTInteger
      with copied_reads(1) [OF m empty] show ?thesis by (simp add: eqs)
    next
      case OFTReal
      with copied_reads(2) [OF m empty] show ?thesis by (simp add: eqs)
    next
      case OFTString
      with copied_reads(3) [OF m empty] obtain a b
        where "member_String (copied s0 OFTString u) = Inr a" "member_String u = Inr b"
          "a = b \<or> (a = Some [] \<and> b = None)" by blast
      with OFTString show ?thesis
        by (auto simp add: eqs and_then_def atoi_Nil atof_Nil)
    next
      case (OFTOther k)
      then show ?thesis by (simp add: eqs)
    qed
  qed
  from clone pq fp fq g1 g2 gg fields show ?thesis
    by (intro exI [of _ q] exI [of _ h'] exI [of _ f'] exI [of _ "Suc (fresh h)"])
       (simp add: f'_def)
qed

lemma sample_free_from_fresh: "free_from_fresh sample_store"
  by (auto simp: free_from_fresh_def sample_store_def)

lemma Clone_with_geometry_sample:
  "\<exists>h'. Clone sample_outside sample_store 4 = Inr (6, h')
        \<and> map_option nFID (feats h' 6) = Some OGRNullFID
        \<and> map_option poDefn (feats h' 6) = Some 1
        \<and> map_option poGeometry (feats h' 6) = Some (Some 7)
        \<and> geoms h' 7 = Some 42 \<and> geoms h' 5 = Some 42
        \<and> feats h' 4 = Some sample_f3"
proof -
  have f: "feats sample_store 4 = Some sample_f3" and g: "poGeometry sample_f3 = Some 5"
    and v: "geoms sample_store 5 = Some 42"
    and s0: "CPLStrdup_NULL sample_outside = Inr (Some [])"
    and a: "fresh sample_store = 6" "poDefn sample_f3 = 1"
    and c: "geometry_clone sample_outside 42 = 42"
    by (simp_all add: sample_defs)
  from f sample_well_formed(3) g v sample_free_from_fresh s0
  obtain d where "defns sample_store (poDefn sample_f3) = Some d"
    and "list_all2 slot_matches (map eType (papoFieldDefn d)) (pauFields sample_f3)"
    and "Clone sample_outside sample_store 4 =
      Inr (fresh sample_store,
           \<lparr>defns = (defns sample_store)(poDefn sample_f3 \<mapsto> Reference d),
            geoms = (geoms sample_store)(Suc (fresh sample_store) \<mapsto>
                      geometry_clone sample_outside 42),
            feats = (feats sample_store)(fresh sample_store \<mapsto>
              \<lparr>poDefn = poDefn sample_f3, nFID = OGRNullFID,
               poGeometry = Some (Suc (fresh sample_store)),
               pauFields = map (\<lambda>i. copied (Some []) (eType (papoFieldDefn d ! i))
                                 (pauFields sample_f3 ! i)) [0..<length (papoFieldDefn d)]\<rparr>),
            fresh = Suc (Suc (fresh sample_store))\<rparr>)"
    by (rule Clone_result)
  with f v a c show ?thesis by simp
qed

end
